theory Spec2Isabelle
  imports Main "HOL-Library.Word" "HOL-Library.AList"
begin

section \<open>The fragment of Go's \<^verbatim>\<open>reflect\<close> package that reflectbuild uses\<close>

text \<open>
  \<^verbatim>\<open>reflectbuild.go\<close> is written entirely against \<^verbatim>\<open>reflect.Type\<close> and
  \<^verbatim>\<open>reflect.Value\<close>. This section models those two library types: runtime types
  with their kinds, values in an explicit memory, and \<^verbatim>\<open>reflect.Value\<close> as a typed
  handle that is either addressable (it names a place in memory) or holds a copy.
  Every panic of the library is a result \<open>Inl\<close> of the operation.
\<close>

subsection \<open>Kinds and types\<close>

datatype kind =
    Invalid | Bool
  | IntK | Int8 | Int16 | Int32 | Int64
  | Uint | Uint8 | Uint16 | Uint32 | Uint64 | Uintptr
  | Float32 | Float64 | Complex64 | Complex128
  | Array | Chan | Func | Interface | Map | Ptr | Slice | String | Struct
  | UnsafePointer

text \<open>
  The types of the model: the scalar types, pointers, slices, arrays, the empty interface
  and structs. A struct type lists its fields as \<^verbatim>\<open>reflect.StructField\<close> does: name,
  package path (empty exactly for an exported field), the anonymous (embedded) flag, the
  tag as its key/value pairs, and the field's type. Two types are identical when they are
  equal as terms; recursive type declarations are outside the model.
\<close>

datatype basic =
    BBool
  | BInt | BInt8 | BInt16 | BInt32 | BInt64
  | BUint | BUint8 | BUint16 | BUint32 | BUint64 | BUintptr
  | BFloat32 | BFloat64
  | BString

datatype gtype =
    TBasic basic
  | TPtr gtype
  | TSlice gtype
  | TArray nat gtype
  | TInterface
  | TStruct string "StructField list"
and StructField =
    StructField (Name: string) (PkgPath: string) (Anonymous: bool)
      (Tag: "(string \<times> string) list") (Type: gtype)

fun basic_kind :: "basic \<Rightarrow> kind" where
  "basic_kind BBool = Bool"
| "basic_kind BInt = IntK"
| "basic_kind BInt8 = Int8"
| "basic_kind BInt16 = Int16"
| "basic_kind BInt32 = Int32"
| "basic_kind BInt64 = Int64"
| "basic_kind BUint = Uint"
| "basic_kind BUint8 = Uint8"
| "basic_kind BUint16 = Uint16"
| "basic_kind BUint32 = Uint32"
| "basic_kind BUint64 = Uint64"
| "basic_kind BUintptr = Uintptr"
| "basic_kind BFloat32 = Float32"
| "basic_kind BFloat64 = Float64"
| "basic_kind BString = String"

text \<open>\<^verbatim>\<open>Type.Kind()\<close>.\<close>

fun Type_Kind :: "gtype \<Rightarrow> kind" where
  "Type_Kind (TBasic b) = basic_kind b"
| "Type_Kind (TPtr _) = Ptr"
| "Type_Kind (TSlice _) = Slice"
| "Type_Kind (TArray _ _) = Array"
| "Type_Kind TInterface = Interface"
| "Type_Kind (TStruct _ _) = Struct"

text \<open>The ways an operation ends without returning to its caller.\<close>

datatype fatal =
    PanicZeroValue          \<comment> \<open>a method called on the zero \<^verbatim>\<open>reflect.Value\<close>\<close>
  | PanicKind               \<comment> \<open>a method called on a Value or Type of the wrong kind\<close>
  | PanicIndexOutOfRange    \<comment> \<open>slice, array, field or stack index out of range\<close>
  | PanicNotAssignable      \<comment> \<open>a store through a Value that is unaddressable or read-only\<close>
  | PanicNotExported        \<comment> \<open>a Value obtained through an unexported field used as a source\<close>
  | PanicTypeMismatch       \<comment> \<open>a value that is not assignable to the destination type\<close>
  | PanicNilPointer         \<comment> \<open>indirection through a nil embedded pointer\<close>
  | PanicNotStruct          \<comment> \<open>line 72: generateFieldGetters called on a non-struct\<close>
  | PanicNotPtr             \<comment> \<open>line 277: assertPtr\<close>
  | PanicLoadAtRoot         \<comment> \<open>line 211: Load with nothing saved\<close>
  | PanicNilMap             \<comment> \<open>assignment to an entry in a nil map\<close>
  | BadMemory               \<comment> \<open>a handle that names no place of the memory; no Go program has one\<close>

type_synonym 'a res = "fatal + 'a"

text \<open>\<^verbatim>\<open>Type.Elem()\<close> panics unless the type is an array, pointer or slice.\<close>

fun Type_Elem :: "gtype \<Rightarrow> gtype res" where
  "Type_Elem (TPtr t) = Inr t"
| "Type_Elem (TSlice t) = Inr t"
| "Type_Elem (TArray _ t) = Inr t"
| "Type_Elem _ = Inl PanicKind"

subsection \<open>Memory\<close>

text \<open>
  The memory is a list of allocated objects. An address is an object's index and a path of
  field and element indexes into it. A slice header names its backing object, its offset
  there, its length and its capacity; the nil slice and the nil pointer have no address.
  An interface value is nil or carries its dynamic type and a copy of the value.
  Integers of every width are stored as the mathematical integer they denote, and a
  \<^verbatim>\<open>float64\<close> as its 64 bits. The rounding of a \<^verbatim>\<open>float64\<close> to a \<^verbatim>\<open>float32\<close> is
  not computed: \<open>VFloat32From x\<close> stands for the \<^verbatim>\<open>float32\<close> value \<^verbatim>\<open>float32(x)\<close> of
  the \<^verbatim>\<open>float64\<close> with the bits \<open>x\<close>, so two such values can denote one \<^verbatim>\<open>float32\<close>.
\<close>

type_synonym addr = "nat \<times> nat list"

datatype sliceh = SliceHdr (sl_obj: nat) (sl_off: nat) (sl_len: nat) (sl_cap: nat)

datatype val =
    VBool bool
  | VInt int
  | VFloat64 "64 word"
  | VFloat32From "64 word"
  | VString string
  | VPtr "addr option"
  | VSlice "sliceh option"
  | VArray "val list"
  | VStruct "val list"
  | VIface "(gtype \<times> val) option"

fun zero_basic :: "basic \<Rightarrow> val" where
  "zero_basic BBool = VBool False"
| "zero_basic BString = VString []"
| "zero_basic BFloat32 = VFloat32From 0"
| "zero_basic BFloat64 = VFloat64 0"
| "zero_basic _ = VInt 0"

text \<open>The zero value of a type, as \<^verbatim>\<open>reflect.New\<close> and \<^verbatim>\<open>make\<close> allocate it.\<close>

fun zero :: "gtype \<Rightarrow> val"
and zero_fields :: "StructField list \<Rightarrow> val list" where
  "zero (TBasic b) = zero_basic b"
| "zero (TPtr _) = VPtr None"
| "zero (TSlice _) = VSlice None"
| "zero (TArray n t) = VArray (replicate n (zero t))"
| "zero TInterface = VIface None"
| "zero (TStruct _ fs) = VStruct (zero_fields fs)"
| "zero_fields [] = []"
| "zero_fields (StructField _ _ _ _ t # fs) = zero t # zero_fields fs"

fun lookup_path :: "val \<Rightarrow> nat list \<Rightarrow> val option" where
  "lookup_path v [] = Some v"
| "lookup_path (VStruct vs) (i # p) = (if i < length vs then lookup_path (vs ! i) p else None)"
| "lookup_path (VArray vs) (i # p) = (if i < length vs then lookup_path (vs ! i) p else None)"
| "lookup_path _ (i # p) = None"

fun update_path :: "val \<Rightarrow> nat list \<Rightarrow> val \<Rightarrow> val option" where
  "update_path v [] x = Some x"
| "update_path (VStruct vs) (i # p) x =
     (if i < length vs
      then (case update_path (vs ! i) p x of None \<Rightarrow> None | Some y \<Rightarrow> Some (VStruct (vs[i := y])))
      else None)"
| "update_path (VArray vs) (i # p) x =
     (if i < length vs
      then (case update_path (vs ! i) p x of None \<Rightarrow> None | Some y \<Rightarrow> Some (VArray (vs[i := y])))
      else None)"
| "update_path _ (i # p) x = None"

definition load :: "val list \<Rightarrow> addr \<Rightarrow> val res" where
  "load h a =
     (if fst a < length h
      then (case lookup_path (h ! fst a) (snd a) of None \<Rightarrow> Inl BadMemory | Some v \<Rightarrow> Inr v)
      else Inl BadMemory)"

definition store :: "val list \<Rightarrow> addr \<Rightarrow> val \<Rightarrow> val list res" where
  "store h a x =
     (if fst a < length h
      then (case update_path (h ! fst a) (snd a) x of
              None \<Rightarrow> Inl BadMemory
            | Some y \<Rightarrow> Inr (h[fst a := y]))
      else Inl BadMemory)"

definition alloc :: "val list \<Rightarrow> val \<Rightarrow> nat \<times> val list" where
  "alloc h v = (length h, h @ [v])"

text \<open>Sequencing of operations that may panic: the first panic ends the computation.\<close>

definition bind_res :: "'a res \<Rightarrow> ('a \<Rightarrow> 'b res) \<Rightarrow> 'b res" where
  "bind_res m f = (case m of Inl e \<Rightarrow> Inl e | Inr x \<Rightarrow> f x)"

subsection \<open>\<^verbatim>\<open>reflect.Value\<close>\<close>

text \<open>
  A \<^verbatim>\<open>reflect.Value\<close> is the zero Value (invalid), or a type, a place and the read-only
  flag. The place is an address (the Value is addressable) or a copy of the value (it is
  not). The flag records whether the Value was reached through an unexported field:
  \<open>StickyRO\<close> stands for \<^verbatim>\<open>flagStickyRO\<close> with or without \<^verbatim>\<open>flagEmbedRO\<close>.
\<close>

datatype roflag = RW | EmbedRO | StickyRO

datatype place = Addr addr | Imm val

datatype rvalue = ZeroValue | Value gtype place roflag

fun Value_IsValid :: "rvalue \<Rightarrow> bool" where
  "Value_IsValid ZeroValue = False"
| "Value_IsValid (Value _ _ _) = True"

fun Value_Kind :: "rvalue \<Rightarrow> kind" where
  "Value_Kind ZeroValue = Invalid"
| "Value_Kind (Value t _ _) = Type_Kind t"

fun Value_Type :: "rvalue \<Rightarrow> gtype res" where
  "Value_Type ZeroValue = Inl PanicZeroValue"
| "Value_Type (Value t _ _) = Inr t"

fun Value_CanSet :: "rvalue \<Rightarrow> bool" where
  "Value_CanSet (Value _ (Addr _) RW) = True"
| "Value_CanSet _ = False"

text \<open>The value a handle denotes in the memory \<open>h\<close>.\<close>

fun read_value :: "val list \<Rightarrow> rvalue \<Rightarrow> val res" where
  "read_value h ZeroValue = Inl PanicZeroValue"
| "read_value h (Value _ (Addr a) _) = load h a"
| "read_value h (Value _ (Imm v) _) = Inr v"

text \<open>
  \<^verbatim>\<open>Value.Elem()\<close>: the pointee of a pointer (addressable; the zero Value for nil), or a
  copy of what an interface holds (not addressable; the zero Value for a nil interface).
\<close>

fun Value_Elem :: "val list \<Rightarrow> rvalue \<Rightarrow> rvalue res" where
  "Value_Elem h (Value (TPtr t) pl ro) =
     bind_res (read_value h (Value (TPtr t) pl ro)) (\<lambda>v.
       case v of
         VPtr None \<Rightarrow> Inr ZeroValue
       | VPtr (Some a) \<Rightarrow> Inr (Value t (Addr a) ro)
       | _ \<Rightarrow> Inl BadMemory)"
| "Value_Elem h (Value TInterface pl ro) =
     bind_res (read_value h (Value TInterface pl ro)) (\<lambda>v.
       case v of
         VIface None \<Rightarrow> Inr ZeroValue
       | VIface (Some (t, x)) \<Rightarrow> Inr (Value t (Imm x) (if ro = RW then RW else StickyRO))
       | _ \<Rightarrow> Inl BadMemory)"
| "Value_Elem h ZeroValue = Inl PanicZeroValue"
| "Value_Elem h _ = Inl PanicKind"

text \<open>
  \<^verbatim>\<open>Value.IsNil()\<close>, for the kinds of the model that can be nil.
\<close>

fun Value_IsNil :: "val list \<Rightarrow> rvalue \<Rightarrow> bool res" where
  "Value_IsNil h (Value (TPtr t) pl ro) =
     bind_res (read_value h (Value (TPtr t) pl ro)) (\<lambda>v.
       case v of VPtr p \<Rightarrow> Inr (p = None) | _ \<Rightarrow> Inl BadMemory)"
| "Value_IsNil h (Value (TSlice t) pl ro) =
     bind_res (read_value h (Value (TSlice t) pl ro)) (\<lambda>v.
       case v of VSlice s \<Rightarrow> Inr (s = None) | _ \<Rightarrow> Inl BadMemory)"
| "Value_IsNil h (Value TInterface pl ro) =
     bind_res (read_value h (Value TInterface pl ro)) (\<lambda>v.
       case v of VIface i \<Rightarrow> Inr (i = None) | _ \<Rightarrow> Inl BadMemory)"
| "Value_IsNil h ZeroValue = Inl PanicZeroValue"
| "Value_IsNil h _ = Inl PanicKind"

definition field_ro :: "roflag \<Rightarrow> StructField \<Rightarrow> roflag" where
  "field_ro ro f =
     (if PkgPath f \<noteq> []
      then (if Anonymous f \<and> ro \<noteq> StickyRO then EmbedRO else StickyRO)
      else (if ro = StickyRO then StickyRO else RW))"

text \<open>\<^verbatim>\<open>Value.Field(i)\<close>: the \<open>i\<close>-th field of a struct, addressable when the struct is.\<close>

fun Value_Field :: "val list \<Rightarrow> rvalue \<Rightarrow> nat \<Rightarrow> rvalue res" where
  "Value_Field h (Value (TStruct n fs) pl ro) i =
     (if i < length fs
      then (case pl of
              Addr a \<Rightarrow> Inr (Value (Type (fs ! i)) (Addr (fst a, snd a @ [i])) (field_ro ro (fs ! i)))
            | Imm (VStruct vs) \<Rightarrow>
                (if i < length vs
                 then Inr (Value (Type (fs ! i)) (Imm (vs ! i)) (field_ro ro (fs ! i)))
                 else Inl BadMemory)
            | Imm _ \<Rightarrow> Inl BadMemory)
      else Inl PanicIndexOutOfRange)"
| "Value_Field h _ i = Inl PanicKind"

text \<open>
  \<^verbatim>\<open>Value.FieldByIndex(index)\<close>: \<^verbatim>\<open>Field\<close> along an index path; from the second
  index on, a pointer to a struct is dereferenced first, and a nil one panics.
\<close>

fun FieldByIndex_from :: "val list \<Rightarrow> rvalue \<Rightarrow> nat list \<Rightarrow> rvalue res" where
  "FieldByIndex_from h v [] = Inr v"
| "FieldByIndex_from h v (x # xs) =
     bind_res
       (if Value_Kind v = Ptr \<and> (case Value_Type v of Inr (TPtr (TStruct _ _)) \<Rightarrow> True | _ \<Rightarrow> False)
        then bind_res (Value_IsNil h v) (\<lambda>nil.
               if nil then Inl PanicNilPointer else Value_Elem h v)
        else Inr v) (\<lambda>v1.
     bind_res (Value_Field h v1 x) (\<lambda>v2.
     FieldByIndex_from h v2 xs))"

definition Value_FieldByIndex :: "val list \<Rightarrow> rvalue \<Rightarrow> nat list \<Rightarrow> rvalue res" where
  "Value_FieldByIndex h v index =
     (if length index = 1 then Value_Field h v (hd index)
      else if Value_Kind v \<noteq> Struct then Inl PanicKind
      else (case index of
              [] \<Rightarrow> Inr v
            | x # xs \<Rightarrow> bind_res (Value_Field h v x) (\<lambda>v1. FieldByIndex_from h v1 xs)))"

text \<open>\<^verbatim>\<open>Value.Len()\<close> of an array, a slice or a string.\<close>

fun Value_Len :: "val list \<Rightarrow> rvalue \<Rightarrow> nat res" where
  "Value_Len h (Value (TArray n t) pl ro) = Inr n"
| "Value_Len h (Value (TSlice t) pl ro) =
     bind_res (read_value h (Value (TSlice t) pl ro)) (\<lambda>v.
       case v of
         VSlice None \<Rightarrow> Inr 0
       | VSlice (Some s) \<Rightarrow> Inr (sl_len s)
       | _ \<Rightarrow> Inl BadMemory)"
| "Value_Len h (Value (TBasic BString) pl ro) =
     bind_res (read_value h (Value (TBasic BString) pl ro)) (\<lambda>v.
       case v of VString s \<Rightarrow> Inr (length s) | _ \<Rightarrow> Inl BadMemory)"
| "Value_Len h ZeroValue = Inl PanicZeroValue"
| "Value_Len h _ = Inl PanicKind"

text \<open>
  \<^verbatim>\<open>Value.Index(i)\<close>: an element of a slice is always addressable (it lives in the
  backing object), an element of an array is when the array is, a byte of a string never.
\<close>

fun Value_Index :: "val list \<Rightarrow> rvalue \<Rightarrow> nat \<Rightarrow> rvalue res" where
  "Value_Index h (Value (TArray n t) pl ro) i =
     (if i < n
      then (case pl of
              Addr a \<Rightarrow> Inr (Value t (Addr (fst a, snd a @ [i])) (if ro = RW then RW else StickyRO))
            | Imm (VArray vs) \<Rightarrow>
                (if i < length vs
                 then Inr (Value t (Imm (vs ! i)) (if ro = RW then RW else StickyRO))
                 else Inl BadMemory)
            | Imm _ \<Rightarrow> Inl BadMemory)
      else Inl PanicIndexOutOfRange)"
| "Value_Index h (Value (TSlice t) pl ro) i =
     bind_res (read_value h (Value (TSlice t) pl ro)) (\<lambda>v.
       case v of
         VSlice None \<Rightarrow> Inl PanicIndexOutOfRange
       | VSlice (Some s) \<Rightarrow>
           (if i < sl_len s
            then Inr (Value t (Addr (sl_obj s, [sl_off s + i])) (if ro = RW then RW else StickyRO))
            else Inl PanicIndexOutOfRange)
       | _ \<Rightarrow> Inl BadMemory)"
| "Value_Index h (Value (TBasic BString) pl ro) i =
     bind_res (read_value h (Value (TBasic BString) pl ro)) (\<lambda>v.
       case v of
         VString s \<Rightarrow>
           (if i < length s
            then Inr (Value (TBasic BUint8) (Imm (VInt (int (of_char (s ! i) :: nat))))
                        (if ro = RW then RW else StickyRO))
            else Inl PanicIndexOutOfRange)
       | _ \<Rightarrow> Inl BadMemory)"
| "Value_Index h ZeroValue i = Inl PanicZeroValue"
| "Value_Index h _ i = Inl PanicKind"

text \<open>
  \<^verbatim>\<open>mustBeAssignable\<close>: every store through a Value panics unless the Value is
  addressable and was not reached through an unexported field.
\<close>

fun mustBeAssignable :: "rvalue \<Rightarrow> addr res" where
  "mustBeAssignable ZeroValue = Inl PanicZeroValue"
| "mustBeAssignable (Value _ (Addr a) RW) = Inr a"
| "mustBeAssignable (Value _ _ _) = Inl PanicNotAssignable"

fun mustBeExported :: "rvalue \<Rightarrow> unit res" where
  "mustBeExported ZeroValue = Inl PanicZeroValue"
| "mustBeExported (Value _ _ RW) = Inr ()"
| "mustBeExported (Value _ _ _) = Inl PanicNotExported"

text \<open>
  \<^verbatim>\<open>assignTo\<close>: the value to store when \<open>x\<close> is assigned to a place of type \<open>dst\<close>: the
  value itself when the types are identical, the value boxed with its type when the
  destination is the empty interface; anything else is not assignable.
\<close>

definition assignTo :: "val list \<Rightarrow> rvalue \<Rightarrow> gtype \<Rightarrow> val res" where
  "assignTo h x dst =
     bind_res (Value_Type x) (\<lambda>t.
     bind_res (read_value h x) (\<lambda>v.
       if t = dst then Inr v
       else if dst = TInterface then Inr (VIface (Some (t, v)))
       else Inl PanicTypeMismatch))"

text \<open>\<^verbatim>\<open>v.Set(x)\<close>.\<close>

definition Value_Set :: "val list \<Rightarrow> rvalue \<Rightarrow> rvalue \<Rightarrow> val list res" where
  "Value_Set h v x =
     bind_res (mustBeAssignable v) (\<lambda>a.
     bind_res (mustBeExported x) (\<lambda>_.
     bind_res (Value_Type v) (\<lambda>t.
     bind_res (assignTo h x t) (\<lambda>y.
     store h a y))))"

definition Value_SetString :: "val list \<Rightarrow> rvalue \<Rightarrow> string \<Rightarrow> val list res" where
  "Value_SetString h v s =
     bind_res (mustBeAssignable v) (\<lambda>a.
       if Value_Kind v = String then store h a (VString s) else Inl PanicKind)"

definition Value_SetBool :: "val list \<Rightarrow> rvalue \<Rightarrow> bool \<Rightarrow> val list res" where
  "Value_SetBool h v x =
     bind_res (mustBeAssignable v) (\<lambda>a.
       if Value_Kind v = Bool then store h a (VBool x) else Inl PanicKind)"

text \<open>
  \<^verbatim>\<open>v.SetFloat(x)\<close> stores \<^verbatim>\<open>float32(x)\<close>, written \<open>VFloat32From x\<close>, into a
  \<^verbatim>\<open>float32\<close> and \<open>x\<close> into a \<^verbatim>\<open>float64\<close>.
\<close>

definition Value_SetFloat :: "val list \<Rightarrow> rvalue \<Rightarrow> 64 word \<Rightarrow> val list res" where
  "Value_SetFloat h v x =
     bind_res (mustBeAssignable v) (\<lambda>a.
       if Value_Kind v = Float32 then store h a (VFloat32From x)
       else if Value_Kind v = Float64 then store h a (VFloat64 x)
       else Inl PanicKind)"

text \<open>
  The width of the signed integer kinds. The width of \<^verbatim>\<open>int\<close> is the platform's,
  32 or 64 bits, given as \<open>isz\<close>.
\<close>

fun int_bits :: "nat \<Rightarrow> kind \<Rightarrow> nat option" where
  "int_bits isz IntK = Some isz"
| "int_bits isz Int8 = Some 8"
| "int_bits isz Int16 = Some 16"
| "int_bits isz Int32 = Some 32"
| "int_bits isz Int64 = Some 64"
| "int_bits isz _ = None"

text \<open>
  \<^verbatim>\<open>v.SetInt(x)\<close> converts the \<^verbatim>\<open>int64\<close> to the width of the destination, which
  keeps its low bits, and panics on any kind that is not a signed integer.
\<close>

definition Value_SetInt :: "nat \<Rightarrow> val list \<Rightarrow> rvalue \<Rightarrow> 64 word \<Rightarrow> val list res" where
  "Value_SetInt isz h v x =
     bind_res (mustBeAssignable v) (\<lambda>a.
       case int_bits isz (Value_Kind v) of
         Some w \<Rightarrow> store h a (VInt (signed_take_bit (w - 1) (sint x)))
       | None \<Rightarrow> Inl PanicKind)"

text \<open>\<^verbatim>\<open>reflect.ValueOf(i)\<close> of an interface value: a copy of what it holds.\<close>

fun reflect_ValueOf :: "(gtype \<times> val) option \<Rightarrow> rvalue" where
  "reflect_ValueOf None = ZeroValue"
| "reflect_ValueOf (Some (t, v)) = Value t (Imm v) RW"

text \<open>\<^verbatim>\<open>reflect.New(t)\<close>: a pointer to a freshly allocated zero value of type \<open>t\<close>.\<close>

definition reflect_New :: "val list \<Rightarrow> gtype \<Rightarrow> val list \<times> rvalue" where
  "reflect_New h t =
     (case alloc h (zero t) of (obj, h') \<Rightarrow> (h', Value (TPtr t) (Imm (VPtr (Some (obj, [])))) RW))"

text \<open>
  Growing a slice by one element, as \<^verbatim>\<open>reflect.Append\<close> does: within the capacity the
  backing object is kept; otherwise a new one is allocated and the elements are copied.
  The new capacity follows the runtime's doubling, without its rounding to size classes,
  so it can be smaller than the runtime's; no statement below speaks of a capacity.
\<close>

definition growcap :: "nat \<Rightarrow> nat \<Rightarrow> nat" where
  "growcap oldcap needed = (if needed > 2 * oldcap then needed else 2 * oldcap)"

definition grow1 :: "val list \<Rightarrow> gtype \<Rightarrow> sliceh option \<Rightarrow> (val list \<times> sliceh) res" where
  "grow1 h et s =
     (case s of
        None \<Rightarrow>
          (case alloc h (VArray (replicate (growcap 0 1) (zero et))) of
             (obj, h') \<Rightarrow> Inr (h', SliceHdr obj 0 1 (growcap 0 1)))
      | Some (SliceHdr obj off n c) \<Rightarrow>
          (if n + 1 \<le> c then Inr (h, SliceHdr obj off (n + 1) c)
           else bind_res (load h (obj, [])) (\<lambda>b.
                  case b of
                    VArray vs \<Rightarrow>
                      (if off + n \<le> length vs
                       then (case alloc h (VArray (take n (drop off vs) @
                                     replicate (growcap c (n + 1) - n) (zero et))) of
                               (obj', h') \<Rightarrow> Inr (h', SliceHdr obj' 0 (n + 1) (growcap c (n + 1))))
                       else Inl BadMemory)
                  | _ \<Rightarrow> Inl BadMemory)))"

text \<open>
  \<^verbatim>\<open>reflect.Append(s, x)\<close> with one value: grow, then \<^verbatim>\<open>s.Index(n).Set(x)\<close>. The
  result is the new slice header as a Value that is not addressable.
\<close>

definition reflect_Append :: "val list \<Rightarrow> rvalue \<Rightarrow> rvalue \<Rightarrow> (val list \<times> rvalue) res" where
  "reflect_Append h s x =
     (case s of
        Value (TSlice et) pl ro \<Rightarrow>
          bind_res (mustBeExported s) (\<lambda>_.
          bind_res (read_value h s) (\<lambda>v.
            case v of
              VSlice sh \<Rightarrow>
                bind_res (grow1 h et sh) (\<lambda>(h1, sh1).
                bind_res (Value_Set h1 (Value et (Addr (sl_obj sh1, [sl_off sh1 + (sl_len sh1 - 1)])) RW) x)
                  (\<lambda>h2. Inr (h2, Value (TSlice et) (Imm (VSlice (Some sh1))) RW)))
            | _ \<Rightarrow> Inl BadMemory))
      | ZeroValue \<Rightarrow> Inl PanicZeroValue
      | _ \<Rightarrow> Inl PanicKind)"

section \<open>reflectbuild\<close>

subsection \<open>Field getters and their cache\<close>

text \<open>
  A \<^verbatim>\<open>fieldGetter\<close> is a closure made by \<^verbatim>\<open>makeFieldGetterByIndex\<close> (lines 85-89) or
  \<^verbatim>\<open>makeFieldGetterByIndexes\<close> (lines 91-95); it is represented by the constructor call
  that made it, and \<open>call_fieldGetter\<close> runs its body.
\<close>

datatype fieldGetter =
    makeFieldGetterByIndex nat
  | makeFieldGetterByIndexes "nat list"

fun call_fieldGetter :: "val list \<Rightarrow> fieldGetter \<Rightarrow> rvalue \<Rightarrow> rvalue res" where
  "call_fieldGetter h (makeFieldGetterByIndex idx) s = Value_Field h s idx"
| "call_fieldGetter h (makeFieldGetterByIndexes idx) s = Value_FieldByIndex h s idx"

text \<open>
  A \<^verbatim>\<open>structFieldGetters\<close> is a Go map, a reference: two variables can name one map
  object, and a write through one is seen through the other. The map objects live in a
  store of their own, \<open>getterMaps\<close>, and a variable of the map type holds an index into it.
  The world of a run is the memory of values, the store of map objects and the platform's
  size of \<^verbatim>\<open>int\<close> in bits.
\<close>

type_synonym structFieldGetters = "(string \<times> fieldGetter) list"

record world =
  heap :: "val list"
  getterMaps :: "structFieldGetters list"
  intSize :: nat

datatype error =
    IncorrectKindError (Actual: kind) (Expected: kind)
  | FieldNotFoundError (StructV: rvalue) (FieldName: string)
  | ErrCannotBuildNil               \<comment> \<open>line 110\<close>
  | ErrNeedPointer kind             \<comment> \<open>line 115\<close>
  | ErrFieldNotAccessible string gtype  \<comment> \<open>line 101\<close>

text \<open>
  The Builder (lines 22-31). \<open>fieldGettersCache\<close> is \<open>None\<close> for the nil map, and
  otherwise maps a type to the map object of its getters.
\<close>

record Builder =
  root :: rvalue
  stack :: "rvalue list"
  nameTag :: string
  fieldGettersCache :: "(gtype \<times> nat) list option"

type_synonym state = "world \<times> Builder"

text \<open>Lines 33-38.\<close>

definition copyAndAppend :: "nat list \<Rightarrow> nat \<Rightarrow> nat list" where
  "copyAndAppend s i =
     (let ns = replicate (length s + 1) 0;
          ns = s @ drop (length s) ns
      in ns[length ns - 1 := i])"

text \<open>\<^verbatim>\<open>m[fieldName] = g\<close> on the map object \<open>m\<close> (lines 56 and 58).\<close>

definition map_assign :: "state \<Rightarrow> nat \<Rightarrow> string \<Rightarrow> fieldGetter \<Rightarrow> state res" where
  "map_assign st m k g =
     (case st of (w, b) \<Rightarrow>
        if m < length (getterMaps w)
        then Inr (w\<lparr>getterMaps := (getterMaps w)[m := AList.update k g (getterMaps w ! m)]\<rparr>, b)
        else Inl BadMemory)"

text \<open>Lines 63-67: the cache is made if it is nil, then \<^verbatim>\<open>b.fieldGettersCache[s] = m\<close>.\<close>

definition cache_store :: "state \<Rightarrow> gtype \<Rightarrow> nat \<Rightarrow> state" where
  "cache_store st s m =
     (case st of (w, b) \<Rightarrow>
        let c = (case fieldGettersCache b of None \<Rightarrow> [] | Some c \<Rightarrow> c)
        in (w, b\<lparr>fieldGettersCache := Some (AList.update s m c)\<rparr>))"

text \<open>
  Lines 40-68. \<^verbatim>\<open>s.NumField()\<close> panics when \<open>s\<close> is not a struct type. The loop over
  the field indexes is \<open>fields_loop\<close>, which carries the index of the field at the head
  of the fields still to visit.
\<close>

fun getOrGenerateFieldGettersRecursive :: "state \<Rightarrow> nat \<Rightarrow> nat list \<Rightarrow> gtype \<Rightarrow> state res"
and fields_loop :: "state \<Rightarrow> nat \<Rightarrow> nat list \<Rightarrow> StructField list \<Rightarrow> nat \<Rightarrow> state res" where
  "getOrGenerateFieldGettersRecursive st m idx (TStruct n fs) =
     bind_res (fields_loop st m idx fs 0) (\<lambda>st1. Inr (cache_store st1 (TStruct n fs) m))"
| "getOrGenerateFieldGettersRecursive st m idx (TBasic _) = Inl PanicKind"
| "getOrGenerateFieldGettersRecursive st m idx (TPtr _) = Inl PanicKind"
| "getOrGenerateFieldGettersRecursive st m idx (TSlice _) = Inl PanicKind"
| "getOrGenerateFieldGettersRecursive st m idx (TArray _ _) = Inl PanicKind"
| "getOrGenerateFieldGettersRecursive st m idx TInterface = Inl PanicKind"
| "fields_loop st m idx [] i = Inr st"
| "fields_loop st m idx (StructField fName fPkgPath fAnonymous fTag fType # fs) i =
     (if fPkgPath \<noteq> [] then fields_loop st m idx fs (i + 1)
      else if fAnonymous
      then bind_res (getOrGenerateFieldGettersRecursive st m (copyAndAppend idx i) fType)
             (\<lambda>st1. fields_loop st1 m idx fs (i + 1))
      else
        let fieldName = (case map_of fTag (nameTag (snd st)) of Some n \<Rightarrow> n | None \<Rightarrow> fName)
        in bind_res
             (if length idx = 0
              then map_assign st m fieldName (makeFieldGetterByIndex i)
              else map_assign st m fieldName (makeFieldGetterByIndexes (copyAndAppend idx i)))
             (\<lambda>st1. fields_loop st1 m idx fs (i + 1)))"

text \<open>Lines 70-83. The result is the map object and the new state.\<close>

definition cache_lookup :: "Builder \<Rightarrow> gtype \<Rightarrow> nat option" where
  "cache_lookup b s = (case fieldGettersCache b of None \<Rightarrow> None | Some c \<Rightarrow> map_of c s)"

definition getOrGenerateFieldGetters :: "state \<Rightarrow> gtype \<Rightarrow> (nat \<times> state) res" where
  "getOrGenerateFieldGetters st s =
     (if Type_Kind s \<noteq> Struct then Inl PanicNotStruct
      else case cache_lookup (snd st) s of
        Some m \<Rightarrow> Inr (m, st)
      | None \<Rightarrow>
          (case st of (w, b) \<Rightarrow>
             let m = length (getterMaps w);
                 st0 = (w\<lparr>getterMaps := getterMaps w @ [[]]\<rparr>, b)
             in bind_res (getOrGenerateFieldGettersRecursive st0 m [] s) (\<lambda>(w1, b1).
                  case fieldGettersCache b1 of
                    None \<Rightarrow> Inl PanicNilMap
                  | Some c \<Rightarrow> Inr (m, (w1, b1\<lparr>fieldGettersCache := Some (AList.update s m c)\<rparr>)))))"

text \<open>Lines 97-104.\<close>

definition fieldGetter :: "state \<Rightarrow> gtype \<Rightarrow> string \<Rightarrow> ((error + fieldGetter) \<times> state) res" where
  "fieldGetter st t s =
     bind_res (getOrGenerateFieldGetters st t) (\<lambda>(m, st1).
       if m < length (getterMaps (fst st1))
       then (case map_of (getterMaps (fst st1) ! m) s of
               None \<Rightarrow> Inr (Inl (ErrFieldNotAccessible s t), st1)
             | Some g \<Rightarrow> Inr (Inr g, st1))
       else Inl BadMemory)"

subsection \<open>The Builder\<close>

text \<open>
  Lines 108-123. The argument \<open>v\<close> is an \<^verbatim>\<open>interface{}\<close>: \<open>None\<close> is the nil interface,
  \<open>Some (t, x)\<close> holds the value \<open>x\<close> of dynamic type \<open>t\<close>.
\<close>

definition NewBuilder :: "val list \<Rightarrow> string \<Rightarrow> (gtype \<times> val) option \<Rightarrow> (error + Builder) res" where
  "NewBuilder h tag v =
     (if v = None then Inr (Inl ErrCannotBuildNil)
      else
        let rv = reflect_ValueOf v in
        bind_res (Value_Type rv) (\<lambda>t.
          if Type_Kind t \<noteq> Ptr then Inr (Inl (ErrNeedPointer (Type_Kind t)))
          else bind_res (Value_Elem h rv) (\<lambda>e.
                 Inr (Inr \<lparr>root = e, stack = [e], nameTag = tag, fieldGettersCache = None\<rparr>))))"

text \<open>Lines 125-127; indexing an empty stack panics.\<close>

definition top :: "Builder \<Rightarrow> rvalue res" where
  "top b = (if stack b = [] then Inl PanicIndexOutOfRange else Inr (stack b ! (length (stack b) - 1)))"

text \<open>
  Lines 144-157. Of the string that \<^verbatim>\<open>Dump\<close> formats only the types of the frames are
  kept; \<^verbatim>\<open>x.Type()\<close> panics on a frame that is the zero Value.
\<close>

fun Dump_frames :: "rvalue list \<Rightarrow> gtype list res" where
  "Dump_frames [] = Inr []"
| "Dump_frames (x # xs) =
     bind_res (Value_Type x) (\<lambda>t. bind_res (Dump_frames xs) (\<lambda>ts. Inr (t # ts)))"

definition Dump :: "Builder \<Rightarrow> gtype list res" where
  "Dump b = Dump_frames (stack b)"

text \<open>Lines 129-134.\<close>

definition push :: "Builder \<Rightarrow> rvalue \<Rightarrow> Builder res" where
  "push b v =
     (let b1 = b\<lparr>stack := stack b @ [v]\<rparr>
      in bind_res (Dump b1) (\<lambda>_. Inr b1))"

text \<open>Lines 136-138.\<close>

definition pop :: "Builder \<Rightarrow> Builder res" where
  "pop b =
     (if stack b = [] then Inl PanicIndexOutOfRange
      else Inr (b\<lparr>stack := take (length (stack b) - 1) (stack b)\<rparr>))"

text \<open>Lines 140-142.\<close>

definition len :: "Builder \<Rightarrow> nat" where
  "len b = length (stack b)"

text \<open>Lines 159-161.\<close>

definition replace :: "Builder \<Rightarrow> rvalue \<Rightarrow> Builder res" where
  "replace b v =
     (if stack b = [] then Inl PanicIndexOutOfRange
      else Inr (b\<lparr>stack := (stack b)[length (stack b) - 1 := v]\<rparr>))"

text \<open>Lines 401-409, 377-387 and 389-399; \<open>None\<close> is the nil error.\<close>

definition checkKind :: "gtype \<Rightarrow> kind \<Rightarrow> error option" where
  "checkKind rt expected =
     (if Type_Kind rt \<noteq> expected
      then Some (IncorrectKindError (Type_Kind rt) expected)
      else None)"

definition checkKindInt :: "gtype \<Rightarrow> error option" where
  "checkKindInt rt =
     (if Type_Kind rt \<in> {IntK, Int8, Int16, Int32, Int64} then None
      else Some (IncorrectKindError (Type_Kind rt) IntK))"

definition checkKindFloat :: "gtype \<Rightarrow> error option" where
  "checkKindFloat rt =
     (if Type_Kind rt \<in> {Float32, Float64} then None
      else Some (IncorrectKindError (Type_Kind rt) Float64))"

text \<open>
  Lines 169-171: the loop that dereferences interfaces and pointers. A pointer or an
  interface can lead back to itself, so the loop need not end: \<open>None\<close> is the run that
  never leaves it.
\<close>

partial_function (option) deref_loop :: "val list \<Rightarrow> rvalue \<Rightarrow> rvalue res option" where
  "deref_loop h t =
     (if Value_Kind t = Interface \<or> Value_Kind t = Ptr
      then (case Value_Elem h t of Inl e \<Rightarrow> Some (Inl e) | Inr t1 \<Rightarrow> deref_loop h t1)
      else Some (Inr t))"

declare deref_loop.simps [code]

text \<open>Lines 173-190: \<^verbatim>\<open>DigField\<close> after the loop, \<open>t\<close> being the dereferenced value.\<close>

definition DigField_found :: "state \<Rightarrow> rvalue \<Rightarrow> string \<Rightarrow> (error option \<times> state) res" where
  "DigField_found st t s =
     bind_res (Value_Type t) (\<lambda>ty.
       case checkKind ty Struct of
         Some err \<Rightarrow> Inr (Some err, st)
       | None \<Rightarrow>
           bind_res (fieldGetter st ty s) (\<lambda>(r, st1).
             case r of
               Inl err \<Rightarrow> Inr (Some (FieldNotFoundError t s), st1)
             | Inr g \<Rightarrow>
                 bind_res (call_fieldGetter (heap (fst st1)) g t) (\<lambda>f.
                   if \<not> Value_IsValid f then Inr (Some (FieldNotFoundError t s), st1)
                   else bind_res (replace (snd st1) f) (\<lambda>b1. Inr (None, (fst st1, b1))))))"

text \<open>Lines 166-191.\<close>

definition DigField :: "state \<Rightarrow> string \<Rightarrow> (error option \<times> state) res option" where
  "DigField st s =
     (case top (snd st) of
        Inl e \<Rightarrow> Some (Inl e)
      | Inr t0 \<Rightarrow>
          (case deref_loop (heap (fst st)) t0 of
             None \<Rightarrow> None
           | Some (Inl e) \<Rightarrow> Some (Inl e)
           | Some (Inr t) \<Rightarrow> Some (DigField_found st t s)))"

text \<open>Lines 196-198.\<close>

definition Save :: "state \<Rightarrow> state res" where
  "Save st =
     (case st of (w, b) \<Rightarrow>
        bind_res (top b) (\<lambda>t. bind_res (push b t) (\<lambda>b1. Inr (w, b1))))"

text \<open>
  Lines 201-204. The stack of the model is a list without a capacity, and
  \<^verbatim>\<open>b.stack[:1]\<close> is taken to panic on the empty stack, as it does on the zero Builder;
  the code would reslice an emptied stack within its capacity. No exported operation
  empties the stack (\<^verbatim>\<open>Load\<close> keeps one frame), so the case arises in no run.
\<close>

definition Reset :: "state \<Rightarrow> state res" where
  "Reset st =
     (case st of (w, b) \<Rightarrow>
        if length (stack b) < 1 then Inl PanicIndexOutOfRange
        else Inr (w, b\<lparr>stack := (take 1 (stack b))[0 := root b]\<rparr>))"

text \<open>Lines 209-214.\<close>

definition Load :: "state \<Rightarrow> state res" where
  "Load st =
     (case st of (w, b) \<Rightarrow>
        if len b < 2 then Inl PanicLoadAtRoot
        else bind_res (pop b) (\<lambda>b1. Inr (w, b1)))"

text \<open>Lines 217-219, 221-223 and 225-227.\<close>

definition Cursor :: "state \<Rightarrow> rvalue res" where
  "Cursor st = top (snd st)"

definition IsSlice :: "state \<Rightarrow> bool res" where
  "IsSlice st = bind_res (top (snd st)) (\<lambda>t. Inr (Value_Kind t = Slice))"

definition IsSliceOrPtr :: "state \<Rightarrow> bool res" where
  "IsSliceOrPtr st =
     bind_res (top (snd st)) (\<lambda>t.
       if Value_Kind t = Slice then Inr True
       else if Value_Kind t = Ptr
       then bind_res (Value_Type t) (\<lambda>ty. bind_res (Type_Elem ty) (\<lambda>et. Inr (Type_Kind et = Slice)))
       else Inr False)"

text \<open>Lines 232-241.\<close>

definition Last :: "state \<Rightarrow> state res" where
  "Last st =
     (case st of (w, b) \<Rightarrow>
        bind_res (Cursor st) (\<lambda>c.
          if Value_Kind c = Slice \<or> Value_Kind c = Array
          then bind_res (Value_Len (heap w) c) (\<lambda>n.
                 if n > 0
                 then bind_res (Value_Index (heap w) c (n - 1)) (\<lambda>x.
                      bind_res (replace b x) (\<lambda>b1. Inr (w, b1)))
                 else Inr st)
          else Inr st))"

text \<open>
  Lines 268-272, shared with line 309-312: after \<^verbatim>\<open>t.Set(newSlice)\<close> the cursor moves
  to \<^verbatim>\<open>t.Index(t.Len() - 1)\<close>.
\<close>

definition move_to_last :: "world \<Rightarrow> Builder \<Rightarrow> val list \<Rightarrow> rvalue \<Rightarrow> (error option \<times> state) res" where
  "move_to_last w b h t =
     bind_res (Value_Len h t) (\<lambda>n.
       if n = 0 then Inl PanicIndexOutOfRange
       else bind_res (Value_Index h t (n - 1)) (\<lambda>x.
            bind_res (replace b x) (\<lambda>b1. Inr (None, (w\<lparr>heap := h\<rparr>, b1)))))"

text \<open>Lines 262-273.\<close>

definition SliceNewElem :: "state \<Rightarrow> (error option \<times> state) res" where
  "SliceNewElem st =
     (case st of (w, b) \<Rightarrow>
        bind_res (top b) (\<lambda>t.
        bind_res (Value_Type t) (\<lambda>ty.
          case checkKind ty Slice of
            Some err \<Rightarrow> Inr (Some err, st)
          | None \<Rightarrow>
              bind_res (Type_Elem ty) (\<lambda>et.
                case reflect_New (heap w) et of (h1, elem) \<Rightarrow>
                  bind_res (Value_Elem h1 elem) (\<lambda>e.
                  bind_res (reflect_Append h1 t e) (\<lambda>(h2, newSlice).
                  bind_res (Value_Set h2 t newSlice) (\<lambda>h3.
                  move_to_last w b h3 t)))))))"

text \<open>Lines 245-257.\<close>

definition SliceLastOrCreate :: "state \<Rightarrow> (error option \<times> state) res" where
  "SliceLastOrCreate st =
     (case st of (w, b) \<Rightarrow>
        bind_res (top b) (\<lambda>t.
        bind_res (Value_Type t) (\<lambda>ty.
          case checkKind ty Slice of
            Some err \<Rightarrow> Inr (Some err, st)
          | None \<Rightarrow>
              bind_res (Value_Len (heap w) t) (\<lambda>n.
                if n = 0 then SliceNewElem st
                else bind_res (Last st) (\<lambda>st1. Inr (None, st1))))))"

text \<open>Lines 275-279.\<close>

definition assertPtr :: "rvalue \<Rightarrow> unit res" where
  "assertPtr v = (if Value_Kind v \<noteq> Ptr then Inl PanicNotPtr else Inr ())"

text \<open>Lines 281-313.\<close>

definition SliceAppend :: "state \<Rightarrow> rvalue \<Rightarrow> (error option \<times> state) res" where
  "SliceAppend st v =
     (case st of (w, b) \<Rightarrow>
        bind_res (assertPtr v) (\<lambda>_.
        bind_res (top b) (\<lambda>t.
        bind_res
          (if Value_Kind t = Ptr
           then bind_res (Value_IsNil (heap w) t) (\<lambda>nil.
                bind_res
                  (if nil
                   then bind_res (Value_Type t) (\<lambda>pt.
                        bind_res (Type_Elem pt) (\<lambda>et.
                          case reflect_New (heap w) et of (h1, x) \<Rightarrow> Value_Set h1 t x))
                   else Inr (heap w)) (\<lambda>h2.
                bind_res (Value_Elem h2 t) (\<lambda>t1. Inr (h2, t1))))
           else Inr (heap w, t)) (\<lambda>(h2, t1).
        bind_res (Value_Type t1) (\<lambda>ty.
          case checkKind ty Slice of
            Some err \<Rightarrow> Inr (Some err, (w\<lparr>heap := h2\<rparr>, b))
          | None \<Rightarrow>
              bind_res (Type_Elem ty) (\<lambda>et.
              bind_res (if Type_Kind et = Ptr then Inr v else Value_Elem h2 v) (\<lambda>v1.
              bind_res (reflect_Append h2 t1 v1) (\<lambda>(h3, newSlice).
              bind_res (Value_Set h3 t1 newSlice) (\<lambda>h4.
              move_to_last w b h4 t1)))))))))"

text \<open>
  Lines 317-331. \<^verbatim>\<open>&s\<close> is the address of a fresh variable holding \<open>s\<close>.
\<close>

definition SetString :: "state \<Rightarrow> string \<Rightarrow> (error option \<times> state) res" where
  "SetString st s =
     (case st of (w, b) \<Rightarrow>
        bind_res (top b) (\<lambda>t.
          if Value_Kind t = Ptr
          then (case alloc (heap w) (VString s) of (obj, h1) \<Rightarrow>
                  bind_res (Value_Set h1 t
                              (reflect_ValueOf (Some (TPtr (TBasic BString), VPtr (Some (obj, []))))))
                    (\<lambda>h2. Inr (None, (w\<lparr>heap := h2\<rparr>, b))))
          else bind_res (Value_Type t) (\<lambda>ty.
                 case checkKind ty String of
                   Some err \<Rightarrow> Inr (Some err, st)
                 | None \<Rightarrow>
                     bind_res (Value_SetString (heap w) t s) (\<lambda>h1.
                       Inr (None, (w\<lparr>heap := h1\<rparr>, b))))))"

text \<open>Lines 335-345.\<close>

definition SetBool :: "state \<Rightarrow> bool \<Rightarrow> (error option \<times> state) res" where
  "SetBool st v =
     (case st of (w, b) \<Rightarrow>
        bind_res (top b) (\<lambda>t.
        bind_res (Value_Type t) (\<lambda>ty.
          case checkKind ty Bool of
            Some err \<Rightarrow> Inr (Some err, st)
          | None \<Rightarrow>
              bind_res (Value_SetBool (heap w) t v) (\<lambda>h1.
                Inr (None, (w\<lparr>heap := h1\<rparr>, b))))))"

text \<open>Lines 347-357.\<close>

definition SetFloat :: "state \<Rightarrow> 64 word \<Rightarrow> (error option \<times> state) res" where
  "SetFloat st n =
     (case st of (w, b) \<Rightarrow>
        bind_res (top b) (\<lambda>t.
        bind_res (Value_Type t) (\<lambda>ty.
          case checkKindFloat ty of
            Some err \<Rightarrow> Inr (Some err, st)
          | None \<Rightarrow>
              bind_res (Value_SetFloat (heap w) t n) (\<lambda>h1.
                Inr (None, (w\<lparr>heap := h1\<rparr>, b))))))"

text \<open>Lines 359-369.\<close>

definition SetInt :: "state \<Rightarrow> 64 word \<Rightarrow> (error option \<times> state) res" where
  "SetInt st n =
     (case st of (w, b) \<Rightarrow>
        bind_res (top b) (\<lambda>t.
        bind_res (Value_Type t) (\<lambda>ty.
          case checkKindInt ty of
            Some err \<Rightarrow> Inr (Some err, st)
          | None \<Rightarrow>
              bind_res (Value_SetInt (intSize w) (heap w) t n) (\<lambda>h1.
                Inr (None, (w\<lparr>heap := h1\<rparr>, b))))))"

text \<open>Lines 371-375.\<close>

definition Builder_Set :: "state \<Rightarrow> rvalue \<Rightarrow> (error option \<times> state) res" where
  "Builder_Set st v =
     (case st of (w, b) \<Rightarrow>
        bind_res (top b) (\<lambda>t.
        bind_res (Value_Set (heap w) t v) (\<lambda>h1.
          Inr (None, (w\<lparr>heap := h1\<rparr>, b)))))"

subsection \<open>Sequences of operations\<close>

text \<open>
  The operations a caller can perform on a Builder, and the run of a sequence of them. A
  run goes on after an operation that returned an error value, as a caller may; it ends
  at the first panic.
\<close>

datatype op =
    OpDigField string
  | OpSave
  | OpReset
  | OpLoad
  | OpLast
  | OpSliceLastOrCreate
  | OpSliceNewElem
  | OpSliceAppend rvalue
  | OpSetString string
  | OpSetBool bool
  | OpSetFloat "64 word"
  | OpSetInt "64 word"
  | OpSet rvalue

definition no_error :: "state res \<Rightarrow> (error option \<times> state) res" where
  "no_error r = bind_res r (\<lambda>st. Inr (None, st))"

fun exec :: "op \<Rightarrow> state \<Rightarrow> (error option \<times> state) res option" where
  "exec (OpDigField s) st = DigField st s"
| "exec OpSave st = Some (no_error (Save st))"
| "exec OpReset st = Some (no_error (Reset st))"
| "exec OpLoad st = Some (no_error (Load st))"
| "exec OpLast st = Some (no_error (Last st))"
| "exec OpSliceLastOrCreate st = Some (SliceLastOrCreate st)"
| "exec OpSliceNewElem st = Some (SliceNewElem st)"
| "exec (OpSliceAppend v) st = Some (SliceAppend st v)"
| "exec (OpSetString s) st = Some (SetString st s)"
| "exec (OpSetBool v) st = Some (SetBool st v)"
| "exec (OpSetFloat n) st = Some (SetFloat st n)"
| "exec (OpSetInt n) st = Some (SetInt st n)"
| "exec (OpSet v) st = Some (Builder_Set st v)"

fun run :: "op list \<Rightarrow> state \<Rightarrow> state res option" where
  "run [] st = Some (Inr st)"
| "run (x # xs) st =
     (case exec x st of
        None \<Rightarrow> None
      | Some (Inl e) \<Rightarrow> Some (Inl e)
      | Some (Inr (_, st1)) \<Rightarrow> run xs st1)"

subsection \<open>Notions used in the statements\<close>

text \<open>
  Two states have the same cursor when the Builder's root, stack and name tag and the
  memory of values are the same; the cache of field getters may differ.
\<close>

definition same_cursor :: "state \<Rightarrow> state \<Rightarrow> bool" where
  "same_cursor st st1 \<longleftrightarrow>
     root (snd st1) = root (snd st) \<and> stack (snd st1) = stack (snd st) \<and>
     nameTag (snd st1) = nameTag (snd st) \<and> heap (fst st1) = heap (fst st)"

text \<open>
  The operations that move the cursor by overwriting the top frame (\<^verbatim>\<open>replace\<close>, lines
  159-161). A step from \<open>st\<close> to \<open>st1\<close> moves the cursor at the bottom when it is one of
  these operations, performed while the stack has length 1, and the stack it leaves is
  not the stack it found. \<open>bottom_untouched ok ops st\<close> follows the run of \<open>ops\<close> from
  \<open>st\<close> and tells whether at its end no step has moved the cursor at the bottom since
  the last \<^verbatim>\<open>Reset\<close> of the run or, when there is none, since its start, where \<open>ok\<close>
  tells the same of what came before.
\<close>

fun is_mover :: "op \<Rightarrow> bool" where
  "is_mover (OpDigField _) = True"
| "is_mover OpLast = True"
| "is_mover OpSliceLastOrCreate = True"
| "is_mover OpSliceNewElem = True"
| "is_mover (OpSliceAppend _) = True"
| "is_mover _ = False"

definition moves_at_bottom :: "op \<Rightarrow> state \<Rightarrow> state \<Rightarrow> bool" where
  "moves_at_bottom x st st1 \<longleftrightarrow>
     is_mover x \<and> len (snd st) = 1 \<and> stack (snd st1) \<noteq> stack (snd st)"

fun bottom_untouched :: "bool \<Rightarrow> op list \<Rightarrow> state \<Rightarrow> bool" where
  "bottom_untouched ok [] st = ok"
| "bottom_untouched ok (x # xs) st =
     (case exec x st of
        Some (Inr (_, st1)) \<Rightarrow>
          bottom_untouched (x = OpReset \<or> (ok \<and> \<not> moves_at_bottom x st st1)) xs st1
      | _ \<Rightarrow> ok)"

text \<open>
  The length of a slice value, and the slices whose header is backed by the memory: the
  backing object is an array that holds the whole capacity.
\<close>

fun slice_len :: "sliceh option \<Rightarrow> nat" where
  "slice_len None = 0"
| "slice_len (Some s) = sl_len s"

definition slice_ok :: "val list \<Rightarrow> sliceh option \<Rightarrow> bool" where
  "slice_ok h s =
     (case s of
        None \<Rightarrow> True
      | Some (SliceHdr obj off n c) \<Rightarrow>
          n \<le> c \<and> (case load h (obj, []) of Inr (VArray vs) \<Rightarrow> off + c \<le> length vs | _ \<Rightarrow> False))"

text \<open>
  Index paths into a struct type: the type reached by \<^verbatim>\<open>FieldByIndex\<close> along a path,
  and the field the path ends at. A getter's path is the index path it follows. The
  getters of a map are relative to the type \<open>S\<close> when each of them follows a path that
  starts at \<open>S\<close> and ends at an exported field that is not embedded and whose address key
  is the key of the getter: the field's tag value under the name tag if it has one,
  its name otherwise (lines 50-53).
\<close>

fun type_at :: "gtype \<Rightarrow> nat list \<Rightarrow> gtype option" where
  "type_at t [] = Some t"
| "type_at (TStruct n fs) (i # p) = (if i < length fs then type_at (Type (fs ! i)) p else None)"
| "type_at _ (i # p) = None"

definition field_at :: "gtype \<Rightarrow> nat list \<Rightarrow> StructField option" where
  "field_at t p =
     (if p = [] then None
      else case type_at t (butlast p) of
             Some (TStruct n fs) \<Rightarrow> (if last p < length fs then Some (fs ! last p) else None)
           | _ \<Rightarrow> None)"

fun getter_path :: "fieldGetter \<Rightarrow> nat list" where
  "getter_path (makeFieldGetterByIndex i) = [i]"
| "getter_path (makeFieldGetterByIndexes p) = p"

definition address_key :: "string \<Rightarrow> StructField \<Rightarrow> string" where
  "address_key tag f = (case map_of (Tag f) tag of Some n \<Rightarrow> n | None \<Rightarrow> Name f)"

definition getter_relative_to :: "string \<Rightarrow> gtype \<Rightarrow> string \<times> fieldGetter \<Rightarrow> bool" where
  "getter_relative_to tag S kg =
     (case field_at S (getter_path (snd kg)) of
        Some f \<Rightarrow> PkgPath f = [] \<and> \<not> Anonymous f \<and> fst kg = address_key tag f
      | None \<Rightarrow> False)"

definition getters_relative_to :: "string \<Rightarrow> gtype \<Rightarrow> structFieldGetters \<Rightarrow> bool" where
  "getters_relative_to tag S gm = list_all (getter_relative_to tag S) gm"

section \<open>Properties\<close>

subsection \<open>Basic facts about the model\<close>

lemma bind_res_Inl [simp]: "bind_res (Inl e) f = Inl e"
  by (simp add: bind_res_def)

lemma bind_res_Inr [simp]: "bind_res (Inr x) f = f x"
  by (simp add: bind_res_def)

lemma bind_res_eq_Inr: "bind_res m f = Inr y \<longleftrightarrow> (\<exists>x. m = Inr x \<and> f x = Inr y)"
  by (cases m) simp_all

lemma copyAndAppend_snoc: "copyAndAppend s i = s @ [i]"
proof -
  have "drop (length s) (replicate (length s + 1) (0::nat)) = [0]"
    by (simp add: replicate_append_same [symmetric])
  then show ?thesis
    by (simp add: copyAndAppend_def Let_def list_update_append del: replicate_Suc replicate.simps)
qed

lemma update_path_lookup:
  "lookup_path v p = Some old \<Longrightarrow> \<exists>y. update_path v p x = Some y \<and> lookup_path y p = Some x"
  by (induction v p arbitrary: old rule: lookup_path.induct) (auto split: if_splits)

lemma store_succeeds:
  assumes "load h a = Inr old"
  shows "\<exists>h1. store h a x = Inr h1 \<and> load h1 a = Inr x \<and> length h1 = length h"
proof -
  from assms have len: "fst a < length h" and "lookup_path (h ! fst a) (snd a) = Some old"
    by (auto simp: load_def split: if_splits option.splits)
  then obtain y where "update_path (h ! fst a) (snd a) x = Some y" "lookup_path y (snd a) = Some x"
    using update_path_lookup by blast
  with len show ?thesis by (simp add: store_def load_def)
qed

lemma store_other_object:
  "store h a x = Inr h1 \<Longrightarrow> fst a \<noteq> obj \<Longrightarrow> load h1 (obj, p) = load h (obj, p)"
  by (auto simp: store_def load_def split: if_splits option.splits)

lemma load_alloc_old: "fst a < length h \<Longrightarrow> load (h @ [x]) a = load h a"
  by (simp add: load_def nth_append)

lemma load_alloc_new: "load (h @ [x]) (length h, []) = Inr x"
  by (simp add: load_def)

lemma load_valid: "load h a = Inr v \<Longrightarrow> fst a < length h"
  by (simp add: load_def split: if_splits)

lemma Type_Kind_Ptr: "Type_Kind ty = Ptr \<longleftrightarrow> (\<exists>t. ty = TPtr t)"
  by (cases ty; simp) (rename_tac b, case_tac b; simp)

lemma Type_Kind_Interface: "Type_Kind ty = Interface \<longleftrightarrow> ty = TInterface"
  by (cases ty; simp) (rename_tac b, case_tac b; simp)

lemma Type_Kind_Slice: "Type_Kind ty = Slice \<longleftrightarrow> (\<exists>t. ty = TSlice t)"
  by (cases ty; simp) (rename_tac b, case_tac b; simp)

lemma Type_Kind_Struct: "Type_Kind ty = Struct \<longleftrightarrow> (\<exists>n fs. ty = TStruct n fs)"
  by (cases ty; simp) (rename_tac b, case_tac b; simp)

lemma Type_Kind_Array: "Type_Kind ty = Array \<longleftrightarrow> (\<exists>n t. ty = TArray n t)"
  by (cases ty; simp) (rename_tac b, case_tac b; simp)

lemma Type_Kind_String: "Type_Kind ty = String \<longleftrightarrow> ty = TBasic BString"
  by (cases ty; simp) (rename_tac b, case_tac b; simp)

lemma deref_loop_done:
  "Value_Kind t \<noteq> Interface \<Longrightarrow> Value_Kind t \<noteq> Ptr \<Longrightarrow> deref_loop h t = Some (Inr t)"
  by (subst deref_loop.simps) simp

lemma IsNil_ptr:
  "Value_IsNil h (Value (TPtr ta) pl ro) = Inr b \<longleftrightarrow>
     (\<exists>p. read_value h (Value (TPtr ta) pl ro) = Inr (VPtr p) \<and> b = (p = None))"
  apply (cases "read_value h (Value (TPtr ta) pl ro)")
   apply simp
  apply (rename_tac v)
  apply (case_tac v)
           apply auto
  done

lemma IsNil_iface:
  "Value_IsNil h (Value TInterface pl ro) = Inr b \<longleftrightarrow>
     (\<exists>p. read_value h (Value TInterface pl ro) = Inr (VIface p) \<and> b = (p = None))"
  apply (cases "read_value h (Value TInterface pl ro)")
   apply simp
  apply (rename_tac v)
  apply (case_tac v)
           apply auto
  done

lemma Value_IsNil_Elem:
  assumes "Value_Kind t = Ptr \<or> Value_Kind t = Interface" and "Value_IsNil h t = Inr True"
  shows "Value_Elem h t = Inr ZeroValue"
proof (cases t)
  case ZeroValue
  with assms show ?thesis by simp
next
  case (Value ty pl ro)
  with assms(1) consider ta where "ty = TPtr ta" | "ty = TInterface"
    by (auto simp: Type_Kind_Ptr Type_Kind_Interface)
  then show ?thesis
  proof cases
    case 1
    with Value assms(2) have "read_value h (Value (TPtr ta) pl ro) = Inr (VPtr None)"
      by (simp only: IsNil_ptr) simp
    with Value 1 show ?thesis by simp
  next
    case 2
    with Value assms(2) have "read_value h (Value TInterface pl ro) = Inr (VIface None)"
      by (simp only: IsNil_iface) simp
    with Value 2 show ?thesis by simp
  qed
qed

subsection \<open>DigField on a nil pointer\<close>

text \<open>
  C10. When the cursor is a nil pointer, or an interface holding no value, the loop of
  lines 169-171 calls \<^verbatim>\<open>Elem\<close> once and gets the zero Value, whose kind is
  \<^verbatim>\<open>Invalid\<close>, so the loop ends; \<^verbatim>\<open>t.Type()\<close> at line 173 then panics.
  \<^verbatim>\<open>DigField\<close> does not return: neither \<^verbatim>\<open>IncorrectKind\<close> nor
  \<^verbatim>\<open>FieldNotFound\<close> nor nil.
\<close>

theorem DigField_nil_fatal:
  assumes "top (snd st) = Inr t"
    and "Value_Kind t = Ptr \<or> Value_Kind t = Interface"
    and "Value_IsNil (heap (fst st)) t = Inr True"
  shows "DigField st s = Some (Inl PanicZeroValue)"
proof -
  have "Value_Elem (heap (fst st)) t = Inr ZeroValue"
    using assms(2,3) by (rule Value_IsNil_Elem)
  then have "deref_loop (heap (fst st)) t = Some (Inr ZeroValue)"
    using assms(2) by (subst deref_loop.simps) (auto simp: deref_loop_done)
  then show ?thesis
    using assms(1) by (simp add: DigField_def DigField_found_def)
qed

theorem DigField_nil_fatal_witness:
  "DigField (\<lparr>heap = [VPtr None], getterMaps = [], intSize = 64\<rparr>,
     \<lparr>root = Value (TPtr (TBasic BInt)) (Addr (0, [])) RW,
      stack = [Value (TPtr (TBasic BInt)) (Addr (0, [])) RW],
      nameTag = ''toml'', fieldGettersCache = None\<rparr>) ''x'' = Some (Inl PanicZeroValue)"
  by (rule DigField_nil_fatal [where t = "Value (TPtr (TBasic BInt)) (Addr (0, [])) RW"])
     (simp_all add: top_def load_def)

subsection \<open>NewBuilder\<close>

text \<open>
  \<^verbatim>\<open>NewBuilder\<close> returns an error exactly for the nil interface and for a value
  whose type is not a pointer type.
\<close>

lemma NewBuilder_error_iff:
  "(\<exists>e. NewBuilder h tag v = Inr (Inl e)) \<longleftrightarrow>
     v = None \<or> (\<exists>t x. v = Some (t, x) \<and> Type_Kind t \<noteq> Ptr)"
proof (cases v)
  case None
  then show ?thesis by (simp add: NewBuilder_def)
next
  case (Some tx)
  obtain t x where "tx = (t, x)" by (cases tx)
  with Some show ?thesis
    by (cases "Value_Elem h (Value t (Imm x) RW)") (auto simp: NewBuilder_def)
qed

text \<open>
  C4. \<^verbatim>\<open>NewBuilder\<close> is documented to return an error when \<open>v\<close> is nil or not a
  pointer, and line 24 records that the root is never nil. Given a nil pointer of a
  pointer type, which is not the nil interface, lines 109 and 114 both pass, and
  \<^verbatim>\<open>rv.Elem()\<close> is the zero Value: \<^verbatim>\<open>NewBuilder\<close> returns no error, and a Builder
  whose root and only stack frame are the zero Value, not a value that \<open>v\<close> points to.
\<close>

theorem NewBuilder_nil_pointer:
  "NewBuilder h tag (Some (TPtr t, VPtr None)) =
     Inr (Inr \<lparr>root = ZeroValue, stack = [ZeroValue], nameTag = tag, fieldGettersCache = None\<rparr>)"
  by (simp add: NewBuilder_def)

subsection \<open>SetInt\<close>

lemma int_bits_Some_iff:
  "(\<exists>n. int_bits isz k = Some n) \<longleftrightarrow> k \<in> {IntK, Int8, Int16, Int32, Int64}"
  by (cases k) simp_all

text \<open>
  C2, as the code has it. \<^verbatim>\<open>checkKindInt\<close> (lines 377-387) accepts the five signed
  kinds only, so on a cursor that holds a value of any other kind, the unsigned integer
  kinds included, \<^verbatim>\<open>SetInt\<close> returns \<^verbatim>\<open>IncorrectKind\<close> and changes nothing. On a
  signed cursor \<^verbatim>\<open>t.SetInt(n)\<close> runs; it needs a settable cursor and stores \<open>n\<close>
  converted to the cursor's width, which for \<^verbatim>\<open>int\<close> is the platform's: \<open>n\<close> itself
  when it fits that width, always so for \<^verbatim>\<open>int64\<close>. The cursor stack is the same
  afterwards.
\<close>

theorem SetInt_signed_kinds:
  assumes "top b = Inr (Value ty pl ro)"
  shows "(Type_Kind ty \<notin> {IntK, Int8, Int16, Int32, Int64} \<longrightarrow>
            SetInt (w, b) n = Inr (Some (IncorrectKindError (Type_Kind ty) IntK), (w, b))) \<and>
         (int_bits (intSize w) (Type_Kind ty) = Some bits \<longrightarrow> pl = Addr a \<longrightarrow> ro = RW \<longrightarrow>
            load (heap w) a = Inr old \<longrightarrow>
            (\<exists>h1. SetInt (w, b) n = Inr (None, (w\<lparr>heap := h1\<rparr>, b)) \<and>
                  load h1 a = Inr (VInt (signed_take_bit (bits - 1) (sint n))) \<and>
                  (- (2 ^ (bits - 1)) \<le> sint n \<and> sint n < 2 ^ (bits - 1) \<longrightarrow>
                     load h1 a = Inr (VInt (sint n))) \<and>
                  (Type_Kind ty = Int64 \<longrightarrow> load h1 a = Inr (VInt (sint n)))))"
proof (intro conjI impI)
  assume "Type_Kind ty \<notin> {IntK, Int8, Int16, Int32, Int64}"
  with assms show "SetInt (w, b) n = Inr (Some (IncorrectKindError (Type_Kind ty) IntK), (w, b))"
    by (simp add: SetInt_def checkKindInt_def)
next
  assume bits: "int_bits (intSize w) (Type_Kind ty) = Some bits" and pl: "pl = Addr a"
    and ro: "ro = RW" and old: "load (heap w) a = Inr old"
  let ?x = "VInt (signed_take_bit (bits - 1) (sint n))"
  from old obtain h1 where st: "store (heap w) a ?x = Inr h1" and ld: "load h1 a = Inr ?x"
    using store_succeeds by blast
  from bits have kind: "Type_Kind ty \<in> {IntK, Int8, Int16, Int32, Int64}"
    using int_bits_Some_iff by blast
  have run: "SetInt (w, b) n = Inr (None, (w\<lparr>heap := h1\<rparr>, b))"
    using assms kind bits pl ro st
    by (simp add: SetInt_def checkKindInt_def Value_SetInt_def)
  have fits: "signed_take_bit (bits - 1) (sint n) = sint n"
    if "- (2 ^ (bits - 1)) \<le> sint n \<and> sint n < 2 ^ (bits - 1)"
    using that by (simp add: signed_take_bit_int_eq_self)
  have "- (2 ^ 63) \<le> sint n" "sint n < 2 ^ 63"
    using sint_ge [of n] sint_lt [of n] by simp_all
  then have full: "signed_take_bit (bits - 1) (sint n) = sint n" if "Type_Kind ty = Int64"
    using that bits by (simp add: signed_take_bit_int_eq_self)
  show "\<exists>h1. SetInt (w, b) n = Inr (None, (w\<lparr>heap := h1\<rparr>, b)) \<and>
          load h1 a = Inr (VInt (signed_take_bit (bits - 1) (sint n))) \<and>
          (- (2 ^ (bits - 1)) \<le> sint n \<and> sint n < 2 ^ (bits - 1) \<longrightarrow>
             load h1 a = Inr (VInt (sint n))) \<and>
          (Type_Kind ty = Int64 \<longrightarrow> load h1 a = Inr (VInt (sint n)))"
    using run ld fits full by auto
qed

theorem SetInt_signed_kinds_witness:
  "(\<exists>h1. SetInt (\<lparr>heap = [VInt 0], getterMaps = [], intSize = 32\<rparr>,
             \<lparr>root = ZeroValue, stack = [Value (TBasic BInt8) (Addr (0, [])) RW],
              nameTag = [], fieldGettersCache = None\<rparr>) 300 =
           Inr (None, (\<lparr>heap = h1, getterMaps = [], intSize = 32\<rparr>,
             \<lparr>root = ZeroValue, stack = [Value (TBasic BInt8) (Addr (0, [])) RW],
              nameTag = [], fieldGettersCache = None\<rparr>)) \<and>
         load h1 (0, []) = Inr (VInt 44)) \<and>
   (\<exists>h1. SetInt (\<lparr>heap = [VInt 0], getterMaps = [], intSize = 32\<rparr>,
             \<lparr>root = ZeroValue, stack = [Value (TBasic BInt) (Addr (0, [])) RW],
              nameTag = [], fieldGettersCache = None\<rparr>) 300 =
           Inr (None, (\<lparr>heap = h1, getterMaps = [], intSize = 32\<rparr>,
             \<lparr>root = ZeroValue, stack = [Value (TBasic BInt) (Addr (0, [])) RW],
              nameTag = [], fieldGettersCache = None\<rparr>)) \<and>
         load h1 (0, []) = Inr (VInt 300)) \<and>
   SetInt (\<lparr>heap = [VString []], getterMaps = [], intSize = 64\<rparr>,
             \<lparr>root = ZeroValue, stack = [Value (TBasic BString) (Addr (0, [])) RW],
              nameTag = [], fieldGettersCache = None\<rparr>) 300 =
     Inr (Some (IncorrectKindError String IntK), (\<lparr>heap = [VString []], getterMaps = [], intSize = 64\<rparr>,
             \<lparr>root = ZeroValue, stack = [Value (TBasic BString) (Addr (0, [])) RW],
              nameTag = [], fieldGettersCache = None\<rparr>))"
proof -
  have s: "sint (300 :: 64 word) = 300" by simp
  have t: "signed_take_bit 7 (300 :: int) = 44"
    by (simp add: signed_take_bit_eq_take_bit_minus take_bit_eq_mod bit_iff_odd)
  show ?thesis
    using SetInt_signed_kinds [of "\<lparr>root = ZeroValue, stack = [Value (TBasic BInt8) (Addr (0, [])) RW],
              nameTag = [], fieldGettersCache = None\<rparr>" "TBasic BInt8" "Addr (0, [])" RW
              "\<lparr>heap = [VInt 0], getterMaps = [], intSize = 32\<rparr>" 300 8 "(0, [])" "VInt 0"]
      SetInt_signed_kinds [of "\<lparr>root = ZeroValue, stack = [Value (TBasic BInt) (Addr (0, [])) RW],
              nameTag = [], fieldGettersCache = None\<rparr>" "TBasic BInt" "Addr (0, [])" RW
              "\<lparr>heap = [VInt 0], getterMaps = [], intSize = 32\<rparr>" 300 32 "(0, [])" "VInt 0"]
      SetInt_signed_kinds [of "\<lparr>root = ZeroValue, stack = [Value (TBasic BString) (Addr (0, [])) RW],
              nameTag = [], fieldGettersCache = None\<rparr>" "TBasic BString" "Addr (0, [])" RW
              "\<lparr>heap = [VString []], getterMaps = [], intSize = 64\<rparr>" 300 8 "(0, [])" "VInt 0"]
    by (simp add: top_def load_def s t)
qed

text \<open>
  The claim fails on an unsigned cursor: \<^verbatim>\<open>SetInt(7)\<close> on a settable \<^verbatim>\<open>uint\<close>
  returns \<^verbatim>\<open>IncorrectKind\<close> and stores nothing.
\<close>

theorem SetInt_unsigned_counterexample:
  "Value_Kind (Value (TBasic BUint) (Addr (0, [])) RW) = Uint \<and>
   SetInt (\<lparr>heap = [VInt 0], getterMaps = [], intSize = 64\<rparr>,
           \<lparr>root = ZeroValue, stack = [Value (TBasic BUint) (Addr (0, [])) RW],
            nameTag = [], fieldGettersCache = None\<rparr>) 7 =
     Inr (Some (IncorrectKindError Uint IntK),
          (\<lparr>heap = [VInt 0], getterMaps = [], intSize = 64\<rparr>,
           \<lparr>root = ZeroValue, stack = [Value (TBasic BUint) (Addr (0, [])) RW],
            nameTag = [], fieldGettersCache = None\<rparr>))"
  by (simp add: SetInt_def top_def checkKindInt_def)

subsection \<open>SetString\<close>


text \<open>
  What \<^verbatim>\<open>SetString\<close> does where it returns. On a cursor of pointer kind it runs
  \<^verbatim>\<open>t.Set(reflect.ValueOf(&s))\<close> (line 321), which assigns a \<^verbatim>\<open>*string\<close>: it succeeds
  when the cursor is a settable \<^verbatim>\<open>*string\<close>, which then points at a fresh variable
  holding \<open>s\<close>. On a settable string cursor \<open>s\<close> is stored in place, and on a cursor
  that holds a value and is neither a pointer nor a string \<^verbatim>\<open>IncorrectKind\<close> is
  returned and nothing changes.
\<close>

lemma SetString_cases:
  assumes "top b = Inr (Value ty pl ro)"
  shows "(ty = TPtr (TBasic BString) \<longrightarrow> pl = Addr a \<longrightarrow> ro = RW \<longrightarrow> load (heap w) a = Inr old \<longrightarrow>
            (\<exists>h1. SetString (w, b) s = Inr (None, (w\<lparr>heap := h1\<rparr>, b)) \<and>
                  load h1 a = Inr (VPtr (Some (length (heap w), []))) \<and>
                  load h1 (length (heap w), []) = Inr (VString s))) \<and>
         (Type_Kind ty = String \<longrightarrow> pl = Addr a \<longrightarrow> ro = RW \<longrightarrow> load (heap w) a = Inr old \<longrightarrow>
            (\<exists>h1. SetString (w, b) s = Inr (None, (w\<lparr>heap := h1\<rparr>, b)) \<and>
                  load h1 a = Inr (VString s))) \<and>
         (Type_Kind ty \<noteq> Ptr \<longrightarrow> Type_Kind ty \<noteq> String \<longrightarrow>
            SetString (w, b) s = Inr (Some (IncorrectKindError (Type_Kind ty) String), (w, b)))"
proof (intro conjI impI)
  assume ty: "ty = TPtr (TBasic BString)" and pl: "pl = Addr a" and ro: "ro = RW"
    and old: "load (heap w) a = Inr old"
  let ?h0 = "heap w @ [VString s]"
  let ?p = "VPtr (Some (length (heap w), []))"
  from old have valid: "fst a < length (heap w)" by (rule load_valid)
  then have "load ?h0 a = Inr old" using old by (simp add: load_alloc_old)
  then obtain h1 where st: "store ?h0 a ?p = Inr h1" and ld: "load h1 a = Inr ?p"
    using store_succeeds by blast
  have "load h1 (length (heap w), []) = load ?h0 (length (heap w), [])"
    using st valid by (intro store_other_object) auto
  then have new: "load h1 (length (heap w), []) = Inr (VString s)"
    by (simp add: load_alloc_new)
  have "SetString (w, b) s = Inr (None, (w\<lparr>heap := h1\<rparr>, b))"
    using assms ty pl ro st
    by (simp add: SetString_def alloc_def Value_Set_def assignTo_def)
  with ld new show "\<exists>h1. SetString (w, b) s = Inr (None, (w\<lparr>heap := h1\<rparr>, b)) \<and>
      load h1 a = Inr ?p \<and> load h1 (length (heap w), []) = Inr (VString s)"
    by blast
next
  assume k: "Type_Kind ty = String" and pl: "pl = Addr a" and ro: "ro = RW"
    and old: "load (heap w) a = Inr old"
  from old obtain h1 where st: "store (heap w) a (VString s) = Inr h1"
    and ld: "load h1 a = Inr (VString s)"
    using store_succeeds by blast
  have "SetString (w, b) s = Inr (None, (w\<lparr>heap := h1\<rparr>, b))"
    using assms k pl ro st
    by (simp add: SetString_def checkKind_def Value_SetString_def)
  with ld show "\<exists>h1. SetString (w, b) s = Inr (None, (w\<lparr>heap := h1\<rparr>, b)) \<and>
      load h1 a = Inr (VString s)"
    by blast
next
  assume "Type_Kind ty \<noteq> Ptr" and "Type_Kind ty \<noteq> String"
  with assms show "SetString (w, b) s =
      Inr (Some (IncorrectKindError (Type_Kind ty) String), (w, b))"
    by (simp add: SetString_def checkKind_def)
qed

lemma SetString_cases_example:
  "(\<exists>h1. SetString (\<lparr>heap = [VPtr None], getterMaps = [], intSize = 64\<rparr>,
             \<lparr>root = ZeroValue, stack = [Value (TPtr (TBasic BString)) (Addr (0, [])) RW],
              nameTag = [], fieldGettersCache = None\<rparr>) ''x'' =
           Inr (None, (\<lparr>heap = h1, getterMaps = [], intSize = 64\<rparr>,
             \<lparr>root = ZeroValue, stack = [Value (TPtr (TBasic BString)) (Addr (0, [])) RW],
              nameTag = [], fieldGettersCache = None\<rparr>)) \<and>
         load h1 (0, []) = Inr (VPtr (Some (1, []))) \<and>
         load h1 (1, []) = Inr (VString ''x'')) \<and>
   (\<exists>h1. SetString (\<lparr>heap = [VString []], getterMaps = [], intSize = 64\<rparr>,
             \<lparr>root = ZeroValue, stack = [Value (TBasic BString) (Addr (0, [])) RW],
              nameTag = [], fieldGettersCache = None\<rparr>) ''x'' =
           Inr (None, (\<lparr>heap = h1, getterMaps = [], intSize = 64\<rparr>,
             \<lparr>root = ZeroValue, stack = [Value (TBasic BString) (Addr (0, [])) RW],
              nameTag = [], fieldGettersCache = None\<rparr>)) \<and>
         load h1 (0, []) = Inr (VString ''x'')) \<and>
   SetString (\<lparr>heap = [VBool False], getterMaps = [], intSize = 64\<rparr>,
             \<lparr>root = ZeroValue, stack = [Value (TBasic BBool) (Addr (0, [])) RW],
              nameTag = [], fieldGettersCache = None\<rparr>) ''x'' =
     Inr (Some (IncorrectKindError Bool String), (\<lparr>heap = [VBool False], getterMaps = [], intSize = 64\<rparr>,
             \<lparr>root = ZeroValue, stack = [Value (TBasic BBool) (Addr (0, [])) RW],
              nameTag = [], fieldGettersCache = None\<rparr>))"
  using SetString_cases [of "\<lparr>root = ZeroValue, stack = [Value (TPtr (TBasic BString)) (Addr (0, [])) RW],
              nameTag = [], fieldGettersCache = None\<rparr>" "TPtr (TBasic BString)" "Addr (0, [])" RW
              "(0, [])" "\<lparr>heap = [VPtr None], getterMaps = [], intSize = 64\<rparr>" "VPtr None" "''x''"]
    SetString_cases [of "\<lparr>root = ZeroValue, stack = [Value (TBasic BString) (Addr (0, [])) RW],
              nameTag = [], fieldGettersCache = None\<rparr>" "TBasic BString" "Addr (0, [])" RW
              "(0, [])" "\<lparr>heap = [VString []], getterMaps = [], intSize = 64\<rparr>" "VString []" "''x''"]
    SetString_cases [of "\<lparr>root = ZeroValue, stack = [Value (TBasic BBool) (Addr (0, [])) RW],
              nameTag = [], fieldGettersCache = None\<rparr>" "TBasic BBool" "Addr (0, [])" RW
              "(0, [])" "\<lparr>heap = [VBool False], getterMaps = [], intSize = 64\<rparr>" "VBool False" "''x''"]
  by (simp add: top_def load_def)

text \<open>
  C5. \<^verbatim>\<open>SetString\<close> is documented to return an error when a string cannot be assigned
  to the current value (lines 315-316), and its branch for the other kinds does return
  \<^verbatim>\<open>IncorrectKind\<close>. The branch for a cursor of pointer kind (line 321) assigns a
  \<^verbatim>\<open>*string\<close> without looking at the type the cursor points to. A fresh Builder on a
  \<^verbatim>\<open>struct{Q *int}\<close> reaches, by \<^verbatim>\<open>DigField("Q")\<close>, a settable cursor of pointer kind
  on which \<^verbatim>\<open>t.Set\<close> panics, a \<^verbatim>\<open>*string\<close> not being assignable to a \<^verbatim>\<open>*int\<close>:
  \<^verbatim>\<open>SetString\<close> neither succeeds nor returns an error, it does not return.
\<close>

theorem SetString_int_pointer_panics:
  "NewBuilder [VStruct [VPtr None]] ''toml'' (Some (TPtr (TStruct ''S'' [StructField ''Q'' [] False [] (TPtr (TBasic BInt))]), VPtr (Some (0, [])))) =
     Inr (Inr \<lparr>root = Value (TStruct ''S'' [StructField ''Q'' [] False [] (TPtr (TBasic BInt))]) (Addr (0, [])) RW,
               stack = [Value (TStruct ''S'' [StructField ''Q'' [] False [] (TPtr (TBasic BInt))]) (Addr (0, [])) RW],
               nameTag = ''toml'', fieldGettersCache = None\<rparr>) \<and>
   run [OpDigField ''Q'']
     (\<lparr>heap = [VStruct [VPtr None]], getterMaps = [], intSize = 64\<rparr>,
      \<lparr>root = Value (TStruct ''S'' [StructField ''Q'' [] False [] (TPtr (TBasic BInt))]) (Addr (0, [])) RW,
       stack = [Value (TStruct ''S'' [StructField ''Q'' [] False [] (TPtr (TBasic BInt))]) (Addr (0, [])) RW],
       nameTag = ''toml'', fieldGettersCache = None\<rparr>) =
     Some (Inr
      (\<lparr>heap = [VStruct [VPtr None]], getterMaps = [[(''Q'', makeFieldGetterByIndex 0)]], intSize = 64\<rparr>,
       \<lparr>root = Value (TStruct ''S'' [StructField ''Q'' [] False [] (TPtr (TBasic BInt))]) (Addr (0, [])) RW,
        stack = [Value (TPtr (TBasic BInt)) (Addr (0, [0])) RW],
        nameTag = ''toml'',
        fieldGettersCache = Some [(TStruct ''S'' [StructField ''Q'' [] False [] (TPtr (TBasic BInt))], 0)]\<rparr>)) \<and>
   Value_Kind (Value (TPtr (TBasic BInt)) (Addr (0, [0])) RW) = Ptr \<and>
   Value_CanSet (Value (TPtr (TBasic BInt)) (Addr (0, [0])) RW) \<and>
   SetString
      (\<lparr>heap = [VStruct [VPtr None]], getterMaps = [[(''Q'', makeFieldGetterByIndex 0)]], intSize = 64\<rparr>,
       \<lparr>root = Value (TStruct ''S'' [StructField ''Q'' [] False [] (TPtr (TBasic BInt))]) (Addr (0, [])) RW,
        stack = [Value (TPtr (TBasic BInt)) (Addr (0, [0])) RW],
        nameTag = ''toml'',
        fieldGettersCache = Some [(TStruct ''S'' [StructField ''Q'' [] False [] (TPtr (TBasic BInt))], 0)]\<rparr>) ''x'' =
     Inl PanicTypeMismatch"
  by code_simp

subsection \<open>What the operations do to the Builder\<close>

lemma map_assign_builder: "map_assign st m k g = Inr st1 \<Longrightarrow> snd st1 = snd st \<and> heap (fst st1) = heap (fst st)"
  by (cases st) (auto simp: map_assign_def split: if_splits)

lemma cache_store_builder:
  "root (snd (cache_store st s m)) = root (snd st) \<and>
   stack (snd (cache_store st s m)) = stack (snd st) \<and>
   nameTag (snd (cache_store st s m)) = nameTag (snd st) \<and>
   fst (cache_store st s m) = fst st"
  by (cases st) (simp add: cache_store_def Let_def)

lemma same_cursor_refl [simp]: "same_cursor st st"
  by (simp add: same_cursor_def)

lemma same_cursor_trans: "same_cursor a b \<Longrightarrow> same_cursor b c \<Longrightarrow> same_cursor a c"
  by (simp add: same_cursor_def)

lemma generate_same_cursor:
  shows "getOrGenerateFieldGettersRecursive st m idx s = Inr st1 \<Longrightarrow> same_cursor st st1"
    and "fields_loop st m idx fs i = Inr st2 \<Longrightarrow> same_cursor st st2"
proof (induction st m idx s and st m idx fs i arbitrary: st1 and st2
    rule: getOrGenerateFieldGettersRecursive_fields_loop.induct)
  case (1 st m idx n fs)
  then show ?case
    by (auto simp: bind_res_eq_Inr same_cursor_def cache_store_builder)
next
  case (8 st m idx fName fPkgPath fAnonymous fTag fType fs i)
  show ?case
  proof (cases "fPkgPath \<noteq> []")
    case True
    with 8 show ?thesis by simp
  next
    case exported: False
    show ?thesis
    proof (cases fAnonymous)
      case True
      with exported 8 show ?thesis
        by (cases st2) (auto simp: bind_res_eq_Inr intro: same_cursor_trans)
    next
      case False
      with exported 8 show ?thesis
        by (cases st2) (auto simp: bind_res_eq_Inr Let_def same_cursor_def dest!: map_assign_builder split: if_splits)
    qed
  qed
qed simp_all

lemma getOrGenerateFieldGetters_same_cursor:
  assumes "getOrGenerateFieldGetters st s = Inr (m, st1)"
  shows "same_cursor st st1"
proof (cases "cache_lookup (snd st) s")
  case (Some m0)
  with assms show ?thesis
    by (auto simp: getOrGenerateFieldGetters_def split: if_splits)
next
  case None
  obtain w b where st: "st = (w, b)" by (cases st)
  let ?st0 = "(w\<lparr>getterMaps := getterMaps w @ [[]]\<rparr>, b)"
  from assms None st obtain w1 b1 c where
    rec: "getOrGenerateFieldGettersRecursive ?st0 (length (getterMaps w)) [] s = Inr (w1, b1)"
    and st1: "st1 = (w1, b1\<lparr>fieldGettersCache := Some c\<rparr>)"
    by (auto simp: getOrGenerateFieldGetters_def Let_def bind_res_eq_Inr
        split: if_splits option.splits)
  from rec have "same_cursor ?st0 (w1, b1)" by (rule generate_same_cursor(1))
  with st st1 show ?thesis by (simp add: same_cursor_def)
qed

lemma fieldGetter_same_cursor:
  "fieldGetter st t s = Inr (r, st1) \<Longrightarrow> same_cursor st st1"
  by (auto simp: fieldGetter_def bind_res_eq_Inr split: if_splits option.splits
      dest: getOrGenerateFieldGetters_same_cursor)

lemma replace_effect:
  "replace b v = Inr b1 \<longleftrightarrow> stack b \<noteq> [] \<and> b1 = b\<lparr>stack := (stack b)[length (stack b) - 1 := v]\<rparr>"
  by (auto simp: replace_def)

lemma top_effect: "top b = Inr t \<longleftrightarrow> stack b \<noteq> [] \<and> t = last (stack b)"
  by (auto simp: top_def last_conv_nth)

text \<open>
  What a successful call leaves behind: an error value and the cursor as it was, or no
  error and a new top frame.
\<close>

lemma DigField_found_effect:
  assumes "DigField_found st t s = Inr (e, st1)" and "stack (snd st) \<noteq> []"
  shows "root (snd st1) = root (snd st) \<and> heap (fst st1) = heap (fst st) \<and>
         (if e = None
          then \<exists>f. stack (snd st1) = (stack (snd st))[length (stack (snd st)) - 1 := f]
          else stack (snd st1) = stack (snd st))"
proof -
  from assms(1) obtain ty where ty: "Value_Type t = Inr ty"
    and rest: "(case checkKind ty Struct of
         Some err \<Rightarrow> Inr (Some err, st)
       | None \<Rightarrow>
           bind_res (fieldGetter st ty s) (\<lambda>(r, st1).
             case r of
               Inl err \<Rightarrow> Inr (Some (FieldNotFoundError t s), st1)
             | Inr g \<Rightarrow>
                 bind_res (call_fieldGetter (heap (fst st1)) g t) (\<lambda>f.
                   if \<not> Value_IsValid f then Inr (Some (FieldNotFoundError t s), st1)
                   else bind_res (replace (snd st1) f) (\<lambda>b1. Inr (None, (fst st1, b1)))))) =
        Inr (e, st1)"
    by (auto simp: DigField_found_def bind_res_eq_Inr)
  show ?thesis
  proof (cases "checkKind ty Struct")
    case (Some err)
    with rest show ?thesis by auto
  next
    case None
    with rest obtain r st2 where fg: "fieldGetter st ty s = Inr (r, st2)"
      and rest2: "(case r of
               Inl err \<Rightarrow> Inr (Some (FieldNotFoundError t s), st2)
             | Inr g \<Rightarrow>
                 bind_res (call_fieldGetter (heap (fst st2)) g t) (\<lambda>f.
                   if \<not> Value_IsValid f then Inr (Some (FieldNotFoundError t s), st2)
                   else bind_res (replace (snd st2) f) (\<lambda>b1. Inr (None, (fst st2, b1))))) =
        Inr (e, st1)"
      by (auto simp: bind_res_eq_Inr)
    from fg have same: "same_cursor st st2" by (rule fieldGetter_same_cursor)
    show ?thesis
    proof (cases r)
      case (Inl err)
      with rest2 same show ?thesis by (auto simp: same_cursor_def)
    next
      case (Inr g)
      with rest2 same assms(2) show ?thesis
        by (auto simp: same_cursor_def bind_res_eq_Inr replace_effect split: if_splits)
    qed
  qed
qed

lemma DigField_effect:
  assumes "DigField st s = Some (Inr (e, st1))"
  shows "stack (snd st) \<noteq> [] \<and> root (snd st1) = root (snd st) \<and> heap (fst st1) = heap (fst st) \<and>
         (if e = None
          then \<exists>f. stack (snd st1) = (stack (snd st))[length (stack (snd st)) - 1 := f]
          else stack (snd st1) = stack (snd st))"
proof -
  from assms obtain t0 t where "top (snd st) = Inr t0" and "DigField_found st t s = Inr (e, st1)"
    by (auto simp: DigField_def split: sum.splits option.splits)
  then show ?thesis
    using DigField_found_effect [of st t s e st1] by (auto simp: top_effect split: if_splits)
qed

lemma move_to_last_effect:
  "move_to_last w b h t = Inr (e, st1) \<Longrightarrow>
     e = None \<and> stack b \<noteq> [] \<and>
     (\<exists>x. st1 = (w\<lparr>heap := h\<rparr>, b\<lparr>stack := (stack b)[length (stack b) - 1 := x]\<rparr>))"
  by (auto simp: move_to_last_def bind_res_eq_Inr replace_effect split: if_splits)

lemma SliceNewElem_effect:
  assumes "SliceNewElem st = Inr (e, st1)"
  shows "stack (snd st) \<noteq> [] \<and> root (snd st1) = root (snd st) \<and>
         (if e = None
          then \<exists>f. stack (snd st1) = (stack (snd st))[length (stack (snd st)) - 1 := f]
          else st1 = st)"
proof -
  obtain w b where st: "st = (w, b)" by (cases st)
  from assms st obtain t ty where t: "top b = Inr t" and ty: "Value_Type t = Inr ty"
    and rest: "(case checkKind ty Slice of
            Some err \<Rightarrow> Inr (Some err, st)
          | None \<Rightarrow>
              bind_res (Type_Elem ty) (\<lambda>et.
                case reflect_New (heap w) et of (h1, elem) \<Rightarrow>
                  bind_res (Value_Elem h1 elem) (\<lambda>e.
                  bind_res (reflect_Append h1 t e) (\<lambda>(h2, newSlice).
                  bind_res (Value_Set h2 t newSlice) (\<lambda>h3.
                  move_to_last w b h3 t))))) = Inr (e, st1)"
    by (auto simp: SliceNewElem_def bind_res_eq_Inr)
  show ?thesis
  proof (cases "checkKind ty Slice")
    case (Some err)
    with rest t st show ?thesis by (auto simp: top_effect)
  next
    case None
    with rest obtain h3 where "move_to_last w b h3 t = Inr (e, st1)"
      by (auto simp: bind_res_eq_Inr case_prod_beta)
    from move_to_last_effect [OF this] st show ?thesis by auto
  qed
qed

lemma Last_effect:
  assumes "Last st = Inr st1"
  shows "stack (snd st) \<noteq> [] \<and> root (snd st1) = root (snd st) \<and> fst st1 = fst st \<and>
         (\<exists>f. stack (snd st1) = (stack (snd st))[length (stack (snd st)) - 1 := f])"
proof -
  have keep: "\<exists>f. xs = xs[length xs - Suc 0 := f]" for xs :: "rvalue list"
    by (rule exI [of _ "xs ! (length xs - Suc 0)"]) simp
  from assms show ?thesis
    by (cases st)
       (auto simp: Last_def Cursor_def bind_res_eq_Inr top_effect replace_effect keep
         split: if_splits)
qed

lemma SliceLastOrCreate_effect:
  assumes "SliceLastOrCreate st = Inr (e, st1)"
  shows "stack (snd st) \<noteq> [] \<and> root (snd st1) = root (snd st) \<and>
         (if e = None
          then \<exists>f. stack (snd st1) = (stack (snd st))[length (stack (snd st)) - 1 := f]
          else st1 = st)"
proof -
  obtain w b where st: "st = (w, b)" by (cases st)
  from assms st consider
      (err) "e \<noteq> None" "st1 = st" "stack b \<noteq> []"
    | (new) "SliceNewElem st = Inr (e, st1)"
    | (last) "e = None" "Last st = Inr st1"
    by (auto simp: SliceLastOrCreate_def bind_res_eq_Inr top_effect
        split: option.splits if_splits)
  then show ?thesis
  proof cases
    case err
    with st show ?thesis by auto
  next
    case new
    then show ?thesis by (rule SliceNewElem_effect)
  next
    case last
    with Last_effect [of st st1] show ?thesis by simp
  qed
qed

lemma SliceAppend_effect:
  assumes "SliceAppend st v = Inr (e, st1)"
  shows "stack (snd st) \<noteq> [] \<and> root (snd st1) = root (snd st) \<and>
         (if e = None
          then \<exists>f. stack (snd st1) = (stack (snd st))[length (stack (snd st)) - 1 := f]
          else snd st1 = snd st)"
proof -
  obtain w b where st: "st = (w, b)" by (cases st)
  from assms st obtain t h2 t1 ty where t: "top b = Inr t" and ty: "Value_Type t1 = Inr ty"
    and rest: "(case checkKind ty Slice of
            Some err \<Rightarrow> Inr (Some err, (w\<lparr>heap := h2\<rparr>, b))
          | None \<Rightarrow>
              bind_res (Type_Elem ty) (\<lambda>et.
              bind_res (if Type_Kind et = Ptr then Inr v else Value_Elem h2 v) (\<lambda>v1.
              bind_res (reflect_Append h2 t1 v1) (\<lambda>(h3, newSlice).
              bind_res (Value_Set h3 t1 newSlice) (\<lambda>h4.
              move_to_last w b h4 t1))))) = Inr (e, st1)"
    by (auto simp: SliceAppend_def bind_res_eq_Inr split: prod.splits)
  show ?thesis
  proof (cases "checkKind ty Slice")
    case (Some err)
    with rest t st show ?thesis by (auto simp: top_effect)
  next
    case None
    with rest obtain h4 where "move_to_last w b h4 t1 = Inr (e, st1)"
      by (auto simp: bind_res_eq_Inr case_prod_beta)
    from move_to_last_effect [OF this] st show ?thesis by auto
  qed
qed

lemma SetString_effect:
  "SetString st s = Inr (e, st1) \<Longrightarrow>
     stack (snd st) \<noteq> [] \<and> snd st1 = snd st \<and> (e \<noteq> None \<longrightarrow> st1 = st)"
  by (cases st)
     (auto simp: SetString_def bind_res_eq_Inr top_effect
       split: option.splits prod.splits if_splits)

lemma SetBool_effect:
  "SetBool st v = Inr (e, st1) \<Longrightarrow>
     stack (snd st) \<noteq> [] \<and> snd st1 = snd st \<and> (e \<noteq> None \<longrightarrow> st1 = st)"
  by (cases st)
     (auto simp: SetBool_def bind_res_eq_Inr top_effect split: option.splits)

lemma SetFloat_effect:
  "SetFloat st n = Inr (e, st1) \<Longrightarrow>
     stack (snd st) \<noteq> [] \<and> snd st1 = snd st \<and> (e \<noteq> None \<longrightarrow> st1 = st)"
  by (cases st)
     (auto simp: SetFloat_def bind_res_eq_Inr top_effect split: option.splits)

lemma SetInt_effect:
  "SetInt st n = Inr (e, st1) \<Longrightarrow>
     stack (snd st) \<noteq> [] \<and> snd st1 = snd st \<and> (e \<noteq> None \<longrightarrow> st1 = st)"
  by (cases st)
     (auto simp: SetInt_def bind_res_eq_Inr top_effect split: option.splits)

lemma Builder_Set_effect:
  "Builder_Set st v = Inr (e, st1) \<Longrightarrow>
     stack (snd st) \<noteq> [] \<and> snd st1 = snd st \<and> e = None"
  by (cases st) (auto simp: Builder_Set_def bind_res_eq_Inr top_effect)

lemma Save_effect:
  "Save st = Inr st1 \<Longrightarrow>
     stack (snd st) \<noteq> [] \<and> root (snd st1) = root (snd st) \<and>
     stack (snd st1) = stack (snd st) @ [last (stack (snd st))]"
  by (cases st) (auto simp: Save_def push_def Let_def bind_res_eq_Inr top_effect)

lemma Load_effect:
  "Load st = Inr st1 \<Longrightarrow>
     2 \<le> length (stack (snd st)) \<and> root (snd st1) = root (snd st) \<and>
     stack (snd st1) = butlast (stack (snd st))"
  by (cases st)
     (auto simp: Load_def len_def pop_def bind_res_eq_Inr butlast_conv_take split: if_splits)

lemma Reset_effect:
  "Reset st = Inr st1 \<longleftrightarrow>
     stack (snd st) \<noteq> [] \<and> st1 = (fst st, (snd st)\<lparr>stack := [root (snd st)]\<rparr>)"
  by (cases st; cases "stack (snd st)") (auto simp: Reset_def)

lemma no_error_effect: "no_error r = Inr (e, st1) \<longleftrightarrow> e = None \<and> r = Inr st1"
  by (cases r) (auto simp: no_error_def)

lemma exec_effect:
  assumes "exec x st = Some (Inr (e, st1))"
  shows "stack (snd st) \<noteq> [] \<and> root (snd st1) = root (snd st) \<and>
         (e \<noteq> None \<longrightarrow> stack (snd st1) = stack (snd st)) \<and>
         (x = OpReset \<longrightarrow> stack (snd st1) = [root (snd st)]) \<and>
         (x = OpSave \<longrightarrow> stack (snd st1) = stack (snd st) @ [last (stack (snd st))]) \<and>
         (x = OpLoad \<longrightarrow> 2 \<le> length (stack (snd st)) \<and> stack (snd st1) = butlast (stack (snd st))) \<and>
         (is_mover x \<longrightarrow>
            (\<exists>f. stack (snd st1) = (stack (snd st))[length (stack (snd st)) - 1 := f])) \<and>
         (\<not> is_mover x \<longrightarrow> x \<notin> {OpReset, OpSave, OpLoad} \<longrightarrow> stack (snd st1) = stack (snd st))"
proof -
  have keep: "\<exists>f. xs = xs[length xs - Suc 0 := f]" for xs :: "rvalue list"
    by (rule exI [of _ "xs ! (length xs - Suc 0)"]) simp
  show ?thesis
  proof (cases x)
    case (OpDigField s)
    with assms DigField_effect [of st s e st1] show ?thesis
      by (auto simp: keep split: if_splits)
  next
    case OpSave
    with assms Save_effect [of st st1] show ?thesis by (auto simp: no_error_effect)
  next
    case OpReset
    with assms show ?thesis by (auto simp: no_error_effect Reset_effect)
  next
    case OpLoad
    with assms Load_effect [of st st1] show ?thesis by (auto simp: no_error_effect)
  next
    case OpLast
    with assms Last_effect [of st st1] show ?thesis by (auto simp: no_error_effect)
  next
    case OpSliceLastOrCreate
    with assms SliceLastOrCreate_effect [of st e st1] show ?thesis
      by (auto simp: keep split: if_splits)
  next
    case OpSliceNewElem
    with assms SliceNewElem_effect [of st e st1] show ?thesis
      by (auto simp: keep split: if_splits)
  next
    case (OpSliceAppend v)
    with assms SliceAppend_effect [of st v e st1] show ?thesis
      by (auto simp: keep split: if_splits)
  next
    case (OpSetString s)
    with assms SetString_effect [of st s e st1] show ?thesis by auto
  next
    case (OpSetBool v)
    with assms SetBool_effect [of st v e st1] show ?thesis by auto
  next
    case (OpSetFloat n)
    with assms SetFloat_effect [of st n e st1] show ?thesis by auto
  next
    case (OpSetInt n)
    with assms SetInt_effect [of st n e st1] show ?thesis by auto
  next
    case (OpSet v)
    with assms Builder_Set_effect [of st v e st1] show ?thesis by auto
  qed
qed

lemma exec_keeps_root:
  assumes "exec x st = Some (Inr (e, st1))"
  shows "root (snd st1) = root (snd st) \<and> stack (snd st1) \<noteq> []"
proof -
  note eff = exec_effect [OF assms]
  then have ne: "stack (snd st) \<noteq> []" by simp
  have "stack (snd st1) \<noteq> []"
  proof (cases "x = OpReset \<or> x = OpSave \<or> x = OpLoad")
    case True
    with eff ne show ?thesis
      by (cases "stack (snd st)" rule: rev_cases) (auto simp: Suc_le_eq)
  next
    case False
    show ?thesis
    proof (cases "is_mover x")
      case True
      with eff obtain f where
        "stack (snd st1) = (stack (snd st))[length (stack (snd st)) - 1 := f]"
        by blast
      then have "length (stack (snd st1)) = length (stack (snd st))" by simp
      with ne show ?thesis by auto
    next
      case nm: False
      with False eff ne show ?thesis by auto
    qed
  qed
  with eff show ?thesis by simp
qed

lemma run_keeps_root:
  "run ops st = Some (Inr st1) \<Longrightarrow> stack (snd st) \<noteq> [] \<Longrightarrow>
     root (snd st1) = root (snd st) \<and> stack (snd st1) \<noteq> []"
proof (induction ops arbitrary: st)
  case Nil
  then show ?case by simp
next
  case (Cons x xs)
  from Cons.prems(1) obtain e st2 where x: "exec x st = Some (Inr (e, st2))"
    and xs: "run xs st2 = Some (Inr st1)"
    by (auto split: option.splits sum.splits)
  from exec_keeps_root [OF x] Cons.IH [OF xs] show ?case by simp
qed

lemma NewBuilder_effect:
  "NewBuilder h tag v = Inr (Inr b0) \<Longrightarrow>
     Value_Elem h (reflect_ValueOf v) = Inr (root b0) \<and> stack b0 = [root b0]"
  by (auto simp: NewBuilder_def Let_def bind_res_eq_Inr split: if_splits)

subsection \<open>The cursor stack after an error\<close>

text \<open>
  C3. Whenever an operation returns an error value, the cursor stack is the one before
  the call: same length, same top frame, same frames. Every recoverable error is
  returned before \<^verbatim>\<open>replace\<close> is reached. (The memory can differ: \<^verbatim>\<open>SliceAppend\<close>
  allocates the slice of a nil pointer at lines 289-292 before it checks the kind, and
  \<^verbatim>\<open>DigField\<close> may have filled the cache of field getters.)
\<close>

theorem error_keeps_cursor_stack:
  assumes "exec x st = Some (Inr (Some err, st1))"
  shows "length (stack (snd st1)) = length (stack (snd st)) \<and>
         last (stack (snd st1)) = last (stack (snd st)) \<and>
         stack (snd st1) = stack (snd st)"
  using exec_effect [OF assms] by simp

theorem error_keeps_cursor_stack_witness:
  "exec (OpDigField ''B'')
     (\<lparr>heap = [VStruct [VInt 0]], getterMaps = [], intSize = 64\<rparr>,
      \<lparr>root = Value (TStruct ''T'' [StructField ''A'' [] False [] (TBasic BInt)]) (Addr (0, [])) RW,
       stack = [Value (TStruct ''T'' [StructField ''A'' [] False [] (TBasic BInt)]) (Addr (0, [])) RW],
       nameTag = ''toml'', fieldGettersCache = None\<rparr>) =
   Some (Inr (Some (FieldNotFoundError
                (Value (TStruct ''T'' [StructField ''A'' [] False [] (TBasic BInt)]) (Addr (0, [])) RW)
                ''B''),
     (\<lparr>heap = [VStruct [VInt 0]], getterMaps = [[(''A'', makeFieldGetterByIndex 0)]], intSize = 64\<rparr>,
      \<lparr>root = Value (TStruct ''T'' [StructField ''A'' [] False [] (TBasic BInt)]) (Addr (0, [])) RW,
       stack = [Value (TStruct ''T'' [StructField ''A'' [] False [] (TBasic BInt)]) (Addr (0, [])) RW],
       nameTag = ''toml'',
       fieldGettersCache = Some [(TStruct ''T'' [StructField ''A'' [] False [] (TBasic BInt)], 0)]\<rparr>))) \<and>
   length (stack (snd
     (\<lparr>heap = [VStruct [VInt 0]], getterMaps = [[(''A'', makeFieldGetterByIndex 0)]], intSize = 64\<rparr>,
      \<lparr>root = Value (TStruct ''T'' [StructField ''A'' [] False [] (TBasic BInt)]) (Addr (0, [])) RW,
       stack = [Value (TStruct ''T'' [StructField ''A'' [] False [] (TBasic BInt)]) (Addr (0, [])) RW],
       nameTag = ''toml'',
       fieldGettersCache = Some [(TStruct ''T'' [StructField ''A'' [] False [] (TBasic BInt)], 0)]\<rparr>))) = 1"
proof -
  have run: "exec (OpDigField ''B'')
     (\<lparr>heap = [VStruct [VInt 0]], getterMaps = [], intSize = 64\<rparr>,
      \<lparr>root = Value (TStruct ''T'' [StructField ''A'' [] False [] (TBasic BInt)]) (Addr (0, [])) RW,
       stack = [Value (TStruct ''T'' [StructField ''A'' [] False [] (TBasic BInt)]) (Addr (0, [])) RW],
       nameTag = ''toml'', fieldGettersCache = None\<rparr>) =
   Some (Inr (Some (FieldNotFoundError
                (Value (TStruct ''T'' [StructField ''A'' [] False [] (TBasic BInt)]) (Addr (0, [])) RW)
                ''B''),
     (\<lparr>heap = [VStruct [VInt 0]], getterMaps = [[(''A'', makeFieldGetterByIndex 0)]], intSize = 64\<rparr>,
      \<lparr>root = Value (TStruct ''T'' [StructField ''A'' [] False [] (TBasic BInt)]) (Addr (0, [])) RW,
       stack = [Value (TStruct ''T'' [StructField ''A'' [] False [] (TBasic BInt)]) (Addr (0, [])) RW],
       nameTag = ''toml'',
       fieldGettersCache = Some [(TStruct ''T'' [StructField ''A'' [] False [] (TBasic BInt)], 0)]\<rparr>)))"
    by code_simp
  from error_keeps_cursor_stack [OF run] run show ?thesis by simp
qed

subsection \<open>Reset\<close>

text \<open>
  C8. In every state that a sequence of operations reaches from a freshly constructed
  Builder, whatever the depth of the stack, \<^verbatim>\<open>Reset\<close> returns, and leaves a stack of
  exactly one frame, the root that \<^verbatim>\<open>NewBuilder\<close> took from its argument; the memory
  is untouched.
\<close>

theorem Reset_restores_root:
  assumes "NewBuilder h tag v = Inr (Inr b0)"
    and "run ops (w0, b0) = Some (Inr st)"
  shows "\<exists>st1. Reset st = Inr st1 \<and> stack (snd st1) = [root b0] \<and>
           length (stack (snd st1)) = 1 \<and> fst st1 = fst st \<and>
           Value_Elem h (reflect_ValueOf v) = Inr (root b0)"
proof -
  from NewBuilder_effect [OF assms(1)]
  have elem: "Value_Elem h (reflect_ValueOf v) = Inr (root b0)" and st0: "stack b0 = [root b0]"
    by simp_all
  from run_keeps_root [OF assms(2)] st0
  have "root (snd st) = root b0" and "stack (snd st) \<noteq> []" by simp_all
  with elem show ?thesis by (simp add: Reset_effect)
qed

theorem Reset_restores_root_witness:
  "\<exists>st1. Reset (\<lparr>heap = [VStruct [VInt 0]], getterMaps = [[(''A'', makeFieldGetterByIndex 0)]], intSize = 64\<rparr>,
      \<lparr>root = Value (TStruct ''T'' [StructField ''A'' [] False [] (TBasic BInt)]) (Addr (0, [])) RW,
       stack = [Value (TStruct ''T'' [StructField ''A'' [] False [] (TBasic BInt)]) (Addr (0, [])) RW,
                Value (TStruct ''T'' [StructField ''A'' [] False [] (TBasic BInt)]) (Addr (0, [])) RW,
                Value (TBasic BInt) (Addr (0, [0])) RW],
       nameTag = ''toml'',
       fieldGettersCache = Some [(TStruct ''T'' [StructField ''A'' [] False [] (TBasic BInt)], 0)]\<rparr>) =
     Inr st1 \<and>
     stack (snd st1) =
       [Value (TStruct ''T'' [StructField ''A'' [] False [] (TBasic BInt)]) (Addr (0, [])) RW]"
proof -
  have new: "NewBuilder [VStruct [VInt 0]] ''toml''
     (Some (TPtr (TStruct ''T'' [StructField ''A'' [] False [] (TBasic BInt)]), VPtr (Some (0, [])))) =
   Inr (Inr \<lparr>root = Value (TStruct ''T'' [StructField ''A'' [] False [] (TBasic BInt)]) (Addr (0, [])) RW,
             stack = [Value (TStruct ''T'' [StructField ''A'' [] False [] (TBasic BInt)]) (Addr (0, [])) RW],
             nameTag = ''toml'', fieldGettersCache = None\<rparr>)"
    by code_simp
  have run: "run [OpSave, OpSave, OpDigField ''A'']
     (\<lparr>heap = [VStruct [VInt 0]], getterMaps = [], intSize = 64\<rparr>,
      \<lparr>root = Value (TStruct ''T'' [StructField ''A'' [] False [] (TBasic BInt)]) (Addr (0, [])) RW,
       stack = [Value (TStruct ''T'' [StructField ''A'' [] False [] (TBasic BInt)]) (Addr (0, [])) RW],
       nameTag = ''toml'', fieldGettersCache = None\<rparr>) =
   Some (Inr (\<lparr>heap = [VStruct [VInt 0]], getterMaps = [[(''A'', makeFieldGetterByIndex 0)]], intSize = 64\<rparr>,
      \<lparr>root = Value (TStruct ''T'' [StructField ''A'' [] False [] (TBasic BInt)]) (Addr (0, [])) RW,
       stack = [Value (TStruct ''T'' [StructField ''A'' [] False [] (TBasic BInt)]) (Addr (0, [])) RW,
                Value (TStruct ''T'' [StructField ''A'' [] False [] (TBasic BInt)]) (Addr (0, [])) RW,
                Value (TBasic BInt) (Addr (0, [0])) RW],
       nameTag = ''toml'',
       fieldGettersCache = Some [(TStruct ''T'' [StructField ''A'' [] False [] (TBasic BInt)], 0)]\<rparr>))"
    by code_simp
  from Reset_restores_root [OF new run] show ?thesis by auto
qed

subsection \<open>The bottom of the cursor stack\<close>

lemma run_bottom_is_root:
  assumes "run ops st = Some (Inr st1)" and "bottom_untouched ok ops st"
    and "stack (snd st) \<noteq> []" and "ok \<longrightarrow> stack (snd st) ! 0 = root (snd st)"
  shows "stack (snd st1) ! 0 = root (snd st1)"
  using assms
proof (induction ops arbitrary: st ok)
  case Nil
  then show ?case by simp
next
  case (Cons x xs)
  from Cons.prems(1) obtain e st2 where x: "exec x st = Some (Inr (e, st2))"
    and xs: "run xs st2 = Some (Inr st1)"
    by (auto split: option.splits sum.splits)
  let ?ok = "x = OpReset \<or> (ok \<and> \<not> moves_at_bottom x st st2)"
  from Cons.prems(2) x have rest: "bottom_untouched ?ok xs st2" by simp
  note eff = exec_effect [OF x]
  from exec_keeps_root [OF x] have root2: "root (snd st2) = root (snd st)"
    and ne2: "stack (snd st2) \<noteq> []" by simp_all
  have "stack (snd st2) ! 0 = root (snd st2)" if ok2: ?ok
  proof (cases "x = OpReset")
    case True
    with eff root2 show ?thesis by simp
  next
    case False
    with ok2 have ok: ok and unmoved: "\<not> moves_at_bottom x st st2" by simp_all
    from ok Cons.prems(4) have bottom: "stack (snd st) ! 0 = root (snd st)" by simp
    have "stack (snd st2) ! 0 = stack (snd st) ! 0"
    proof (cases "x = OpSave \<or> x = OpLoad")
      case True
      with eff Cons.prems(3) show ?thesis
        by (auto simp: nth_append nth_butlast)
    next
      case other: False
      show ?thesis
      proof (cases "is_mover x")
        case True
        with eff obtain f where
          f: "stack (snd st2) = (stack (snd st))[length (stack (snd st)) - 1 := f]"
          by blast
        show ?thesis
        proof (cases "length (stack (snd st)) = 1")
          case True
          with unmoved \<open>is_mover x\<close> show ?thesis
            by (simp add: moves_at_bottom_def len_def)
        next
          case False
          with Cons.prems(3) have "length (stack (snd st)) - 1 \<noteq> 0"
            by (cases "stack (snd st)") auto
          with f show ?thesis by simp
        qed
      next
        case nm: False
        with False other eff show ?thesis by auto
      qed
    qed
    with bottom root2 show ?thesis by simp
  qed
  with Cons.IH [OF xs rest ne2] show ?case by simp
qed

lemma run_append:
  "run (xs @ ys) st = Some (Inr st2) \<Longrightarrow>
     \<exists>st1. run xs st = Some (Inr st1) \<and> run ys st1 = Some (Inr st2)"
  by (induction xs arbitrary: st) (auto split: option.splits sum.splits)

lemma moves_at_bottom_effect:
  assumes "exec x st = Some (Inr (e, st1))" and "moves_at_bottom x st st1"
  shows "length (stack (snd st1)) = 1 \<and> top (snd st1) = Inr (stack (snd st1) ! 0) \<and>
         stack (snd st1) ! 0 \<noteq> stack (snd st) ! 0"
proof -
  from assms(2) have mv: "is_mover x" and one: "length (stack (snd st)) = 1"
    and changed: "stack (snd st1) \<noteq> stack (snd st)"
    by (simp_all add: moves_at_bottom_def len_def)
  from exec_effect [OF assms(1)] mv obtain f where
    f: "stack (snd st1) = (stack (snd st))[length (stack (snd st)) - 1 := f]"
    by blast
  from one obtain t where t: "stack (snd st) = [t]"
    by (cases "stack (snd st)") auto
  with f changed show ?thesis by (auto simp: top_def)
qed

text \<open>
  C1, as the code has it. In every run from a freshly constructed Builder, after every
  number \<open>k\<close> of operations the stack is not empty and the \<^verbatim>\<open>root\<close> field is the root
  that \<^verbatim>\<open>NewBuilder\<close> set; and the frame at index 0 is that root unless, since
  construction or the last \<^verbatim>\<open>Reset\<close>, a \<^verbatim>\<open>DigField\<close>, \<^verbatim>\<open>Last\<close>, \<^verbatim>\<open>SliceNewElem\<close>,
  \<^verbatim>\<open>SliceLastOrCreate\<close> or \<^verbatim>\<open>SliceAppend\<close> performed while the stack had length 1
  has changed the cursor. Such a step overwrites the bottom frame: whatever operation
  \<open>x\<close> it is, afterwards the stack still has length 1 and its frame at index 0 is the new
  cursor, which is not the frame that was there.
\<close>

theorem bottom_is_root_until_moved:
  assumes "NewBuilder h tag v = Inr (Inr b0)"
    and "run ops (w0, b0) = Some (Inr st)"
  shows "\<exists>st1. run (take k ops) (w0, b0) = Some (Inr st1) \<and>
           stack (snd st1) \<noteq> [] \<and> root (snd st1) = root b0 \<and>
           (bottom_untouched True (take k ops) (w0, b0) \<longrightarrow> stack (snd st1) ! 0 = root b0) \<and>
           (\<forall>x e st2. exec x st1 = Some (Inr (e, st2)) \<longrightarrow> moves_at_bottom x st1 st2 \<longrightarrow>
              length (stack (snd st2)) = 1 \<and> top (snd st2) = Inr (stack (snd st2) ! 0) \<and>
              stack (snd st2) ! 0 \<noteq> stack (snd st1) ! 0)"
proof -
  from NewBuilder_effect [OF assms(1)] have b0: "stack b0 = [root b0]" by simp
  have split: "take k ops @ drop k ops = ops" by simp
  from assms(2) obtain st1 where pre: "run (take k ops) (w0, b0) = Some (Inr st1)"
    using run_append [of "take k ops" "drop k ops" "(w0, b0)" st] by (auto simp: split)
  from run_keeps_root [OF pre] b0 have keep: "root (snd st1) = root b0" "stack (snd st1) \<noteq> []"
    by simp_all
  have "stack (snd st1) ! 0 = root b0" if "bottom_untouched True (take k ops) (w0, b0)"
    using run_bottom_is_root [OF pre that] b0 keep by simp
  with pre keep moves_at_bottom_effect show ?thesis by blast
qed

theorem bottom_is_root_until_moved_witness:
  "(\<exists>st1. run (take 3 [OpDigField ''A'', OpReset, OpSave])
      (\<lparr>heap = [VStruct [VInt 0]], getterMaps = [], intSize = 64\<rparr>,
       \<lparr>root = Value (TStruct ''T'' [StructField ''A'' [] False [] (TBasic BInt)]) (Addr (0, [])) RW,
       stack = [Value (TStruct ''T'' [StructField ''A'' [] False [] (TBasic BInt)]) (Addr (0, [])) RW],
       nameTag = ''toml'', fieldGettersCache = None\<rparr>) = Some (Inr st1) \<and>
      stack (snd st1) ! 0 = Value (TStruct ''T'' [StructField ''A'' [] False [] (TBasic BInt)]) (Addr (0, [])) RW) \<and>
   stack (snd
      (\<lparr>heap = [VStruct [VInt 0]], getterMaps = [[(''A'', makeFieldGetterByIndex 0)]], intSize = 64\<rparr>,
       \<lparr>root = Value (TStruct ''T'' [StructField ''A'' [] False [] (TBasic BInt)]) (Addr (0, [])) RW,
       stack = [Value (TBasic BInt) (Addr (0, [0])) RW],
       nameTag = ''toml'',
       fieldGettersCache = Some [(TStruct ''T'' [StructField ''A'' [] False [] (TBasic BInt)], 0)]\<rparr>)) ! 0 \<noteq> Value (TStruct ''T'' [StructField ''A'' [] False [] (TBasic BInt)]) (Addr (0, [])) RW"
proof -
  have new: "NewBuilder [VStruct [VInt 0]] ''toml'' (Some (TPtr (TStruct ''T'' [StructField ''A'' [] False [] (TBasic BInt)]), VPtr (Some (0, [])))) =
     Inr (Inr \<lparr>root = Value (TStruct ''T'' [StructField ''A'' [] False [] (TBasic BInt)]) (Addr (0, [])) RW,
       stack = [Value (TStruct ''T'' [StructField ''A'' [] False [] (TBasic BInt)]) (Addr (0, [])) RW],
       nameTag = ''toml'', fieldGettersCache = None\<rparr>)"
    by code_simp
  have run: "run [OpDigField ''A'', OpReset, OpSave]
      (\<lparr>heap = [VStruct [VInt 0]], getterMaps = [], intSize = 64\<rparr>,
       \<lparr>root = Value (TStruct ''T'' [StructField ''A'' [] False [] (TBasic BInt)]) (Addr (0, [])) RW,
       stack = [Value (TStruct ''T'' [StructField ''A'' [] False [] (TBasic BInt)]) (Addr (0, [])) RW],
       nameTag = ''toml'', fieldGettersCache = None\<rparr>) =
     Some (Inr (\<lparr>heap = [VStruct [VInt 0]], getterMaps = [[(''A'', makeFieldGetterByIndex 0)]], intSize = 64\<rparr>,
       \<lparr>root = Value (TStruct ''T'' [StructField ''A'' [] False [] (TBasic BInt)]) (Addr (0, [])) RW,
        stack = [Value (TStruct ''T'' [StructField ''A'' [] False [] (TBasic BInt)]) (Addr (0, [])) RW, Value (TStruct ''T'' [StructField ''A'' [] False [] (TBasic BInt)]) (Addr (0, [])) RW],
        nameTag = ''toml'',
        fieldGettersCache = Some [(TStruct ''T'' [StructField ''A'' [] False [] (TBasic BInt)], 0)]\<rparr>))"
    by code_simp
  have untouched: "bottom_untouched True (take 3 [OpDigField ''A'', OpReset, OpSave])
      (\<lparr>heap = [VStruct [VInt 0]], getterMaps = [], intSize = 64\<rparr>,
       \<lparr>root = Value (TStruct ''T'' [StructField ''A'' [] False [] (TBasic BInt)]) (Addr (0, [])) RW,
       stack = [Value (TStruct ''T'' [StructField ''A'' [] False [] (TBasic BInt)]) (Addr (0, [])) RW],
       nameTag = ''toml'', fieldGettersCache = None\<rparr>)"
    by code_simp
  have dig: "exec (OpDigField ''A'')
      (\<lparr>heap = [VStruct [VInt 0]], getterMaps = [], intSize = 64\<rparr>,
       \<lparr>root = Value (TStruct ''T'' [StructField ''A'' [] False [] (TBasic BInt)]) (Addr (0, [])) RW,
       stack = [Value (TStruct ''T'' [StructField ''A'' [] False [] (TBasic BInt)]) (Addr (0, [])) RW],
       nameTag = ''toml'', fieldGettersCache = None\<rparr>) =
     Some (Inr (None,
      (\<lparr>heap = [VStruct [VInt 0]], getterMaps = [[(''A'', makeFieldGetterByIndex 0)]], intSize = 64\<rparr>,
       \<lparr>root = Value (TStruct ''T'' [StructField ''A'' [] False [] (TBasic BInt)]) (Addr (0, [])) RW,
       stack = [Value (TBasic BInt) (Addr (0, [0])) RW],
       nameTag = ''toml'',
       fieldGettersCache = Some [(TStruct ''T'' [StructField ''A'' [] False [] (TBasic BInt)], 0)]\<rparr>)))"
    by code_simp
  have moved: "moves_at_bottom (OpDigField ''A'')
      (\<lparr>heap = [VStruct [VInt 0]], getterMaps = [], intSize = 64\<rparr>,
       \<lparr>root = Value (TStruct ''T'' [StructField ''A'' [] False [] (TBasic BInt)]) (Addr (0, [])) RW,
       stack = [Value (TStruct ''T'' [StructField ''A'' [] False [] (TBasic BInt)]) (Addr (0, [])) RW],
       nameTag = ''toml'', fieldGettersCache = None\<rparr>)
      (\<lparr>heap = [VStruct [VInt 0]], getterMaps = [[(''A'', makeFieldGetterByIndex 0)]], intSize = 64\<rparr>,
       \<lparr>root = Value (TStruct ''T'' [StructField ''A'' [] False [] (TBasic BInt)]) (Addr (0, [])) RW,
       stack = [Value (TBasic BInt) (Addr (0, [0])) RW],
       nameTag = ''toml'',
       fieldGettersCache = Some [(TStruct ''T'' [StructField ''A'' [] False [] (TBasic BInt)], 0)]\<rparr>)"
    by code_simp
  have start: "run (take 0 [OpDigField ''A'', OpReset, OpSave])
      (\<lparr>heap = [VStruct [VInt 0]], getterMaps = [], intSize = 64\<rparr>,
       \<lparr>root = Value (TStruct ''T'' [StructField ''A'' [] False [] (TBasic BInt)]) (Addr (0, [])) RW,
       stack = [Value (TStruct ''T'' [StructField ''A'' [] False [] (TBasic BInt)]) (Addr (0, [])) RW],
       nameTag = ''toml'', fieldGettersCache = None\<rparr>) =
     Some (Inr (\<lparr>heap = [VStruct [VInt 0]], getterMaps = [], intSize = 64\<rparr>,
       \<lparr>root = Value (TStruct ''T'' [StructField ''A'' [] False [] (TBasic BInt)]) (Addr (0, [])) RW,
       stack = [Value (TStruct ''T'' [StructField ''A'' [] False [] (TBasic BInt)]) (Addr (0, [])) RW],
       nameTag = ''toml'', fieldGettersCache = None\<rparr>))"
    by simp
  from bottom_is_root_until_moved [OF new run, of 3] untouched
  have first: "\<exists>st1. run (take 3 [OpDigField ''A'', OpReset, OpSave])
      (\<lparr>heap = [VStruct [VInt 0]], getterMaps = [], intSize = 64\<rparr>,
       \<lparr>root = Value (TStruct ''T'' [StructField ''A'' [] False [] (TBasic BInt)]) (Addr (0, [])) RW,
       stack = [Value (TStruct ''T'' [StructField ''A'' [] False [] (TBasic BInt)]) (Addr (0, [])) RW],
       nameTag = ''toml'', fieldGettersCache = None\<rparr>) = Some (Inr st1) \<and>
      stack (snd st1) ! 0 = Value (TStruct ''T'' [StructField ''A'' [] False [] (TBasic BInt)]) (Addr (0, [])) RW"
    by (auto simp del: run.simps take_Cons_numeral bottom_untouched.simps)
  from bottom_is_root_until_moved [OF new run, of 0] start dig moved
  have "stack (snd
      (\<lparr>heap = [VStruct [VInt 0]], getterMaps = [[(''A'', makeFieldGetterByIndex 0)]], intSize = 64\<rparr>,
       \<lparr>root = Value (TStruct ''T'' [StructField ''A'' [] False [] (TBasic BInt)]) (Addr (0, [])) RW,
       stack = [Value (TBasic BInt) (Addr (0, [0])) RW],
       nameTag = ''toml'',
       fieldGettersCache = Some [(TStruct ''T'' [StructField ''A'' [] False [] (TBasic BInt)], 0)]\<rparr>)) ! 0 \<noteq>
    stack (snd (\<lparr>heap = [VStruct [VInt 0]], getterMaps = [], intSize = 64\<rparr>,
       \<lparr>root = Value (TStruct ''T'' [StructField ''A'' [] False [] (TBasic BInt)]) (Addr (0, [])) RW,
       stack = [Value (TStruct ''T'' [StructField ''A'' [] False [] (TBasic BInt)]) (Addr (0, [])) RW],
       nameTag = ''toml'', fieldGettersCache = None\<rparr>)) ! 0"
    by (auto simp del: exec.simps)
  with first show ?thesis by simp
qed

text \<open>
  The claim fails after one \<^verbatim>\<open>DigField\<close> on a fresh Builder: the stack has length 1,
  \<^verbatim>\<open>replace\<close> overwrites index 0, and the bottom frame is the field \<open>A\<close>, not the root.
\<close>

theorem bottom_is_root_counterexample:
  "NewBuilder [VStruct [VInt 0]] ''toml''
     (Some (TPtr (TStruct ''T'' [StructField ''A'' [] False [] (TBasic BInt)]), VPtr (Some (0, [])))) =
   Inr (Inr \<lparr>root = Value (TStruct ''T'' [StructField ''A'' [] False [] (TBasic BInt)]) (Addr (0, [])) RW,
             stack = [Value (TStruct ''T'' [StructField ''A'' [] False [] (TBasic BInt)]) (Addr (0, [])) RW],
             nameTag = ''toml'', fieldGettersCache = None\<rparr>) \<and>
   run [OpDigField ''A'']
     (\<lparr>heap = [VStruct [VInt 0]], getterMaps = [], intSize = 64\<rparr>,
      \<lparr>root = Value (TStruct ''T'' [StructField ''A'' [] False [] (TBasic BInt)]) (Addr (0, [])) RW,
       stack = [Value (TStruct ''T'' [StructField ''A'' [] False [] (TBasic BInt)]) (Addr (0, [])) RW],
       nameTag = ''toml'', fieldGettersCache = None\<rparr>) =
   Some (Inr (\<lparr>heap = [VStruct [VInt 0]], getterMaps = [[(''A'', makeFieldGetterByIndex 0)]], intSize = 64\<rparr>,
      \<lparr>root = Value (TStruct ''T'' [StructField ''A'' [] False [] (TBasic BInt)]) (Addr (0, [])) RW,
       stack = [Value (TBasic BInt) (Addr (0, [0])) RW],
       nameTag = ''toml'',
       fieldGettersCache = Some [(TStruct ''T'' [StructField ''A'' [] False [] (TBasic BInt)], 0)]\<rparr>)) \<and>
   [Value (TBasic BInt) (Addr (0, [0])) RW] ! 0 \<noteq>
     Value (TStruct ''T'' [StructField ''A'' [] False [] (TBasic BInt)]) (Addr (0, [])) RW"
  by code_simp

subsection \<open>Slices\<close>

lemma load_append: "fst a < length h \<Longrightarrow> load (h @ k) a = load h a"
  by (simp add: load_def nth_append)

lemma load_element:
  "load h (obj, []) = Inr (VArray vs) \<Longrightarrow> i < length vs \<Longrightarrow> load h (obj, [i]) = Inr (vs ! i)"
  by (auto simp: load_def split: if_splits)

lemma Value_Len_slice:
  "Value_Len h (Value (TSlice et) pl ro) = Inr n \<longleftrightarrow>
     (\<exists>s. read_value h (Value (TSlice et) pl ro) = Inr (VSlice s) \<and> n = slice_len s)"
  apply (cases "read_value h (Value (TSlice et) pl ro)")
   apply simp
  apply (rename_tac v)
  apply (case_tac v)
           apply (auto split: option.splits)
  done

lemma growcap_ge: "needed \<le> growcap oldcap needed"
  by (simp add: growcap_def)

lemma grow1_effect:
  assumes "slice_ok h sh"
  shows "\<exists>h1 sh1 vs. grow1 h et sh = Inr (h1, sh1) \<and> sl_len sh1 = slice_len sh + 1 \<and>
           (\<exists>k. h1 = h @ k) \<and>
           load h1 (sl_obj sh1, []) = Inr (VArray vs) \<and> sl_off sh1 + slice_len sh < length vs \<and>
           (length h \<le> sl_obj sh1 \<or> (\<exists>hdr. sh = Some hdr \<and> sl_obj sh1 = sl_obj hdr))"
proof (cases sh)
  case None
  have "load (h @ [VArray (replicate (growcap 0 1) (zero et))]) (length h, []) =
      Inr (VArray (replicate (growcap 0 1) (zero et)))"
    by (rule load_alloc_new)
  moreover have "0 < growcap 0 1" using growcap_ge [of 1 0] by simp
  ultimately show ?thesis
    using None by (simp add: grow1_def alloc_def)
next
  case (Some hdr)
  obtain obj off n c where hdr: "hdr = SliceHdr obj off n c" by (cases hdr)
  from assms Some hdr obtain vs where nc: "n \<le> c" and vs: "load h (obj, []) = Inr (VArray vs)"
    and cap: "off + c \<le> length vs"
    by (auto simp: slice_ok_def split: sum.splits val.splits)
  show ?thesis
  proof (cases "n + 1 \<le> c")
    case True
    with Some hdr vs cap show ?thesis
      by (auto simp: grow1_def intro!: exI [of _ vs])
  next
    case False
    let ?new = "VArray (take n (drop off vs) @ replicate (growcap c (n + 1) - n) (zero et))"
    have ld: "load (h @ [?new]) (length h, []) = Inr ?new" by (rule load_alloc_new)
    have "n + 1 \<le> growcap c (n + 1)" by (rule growcap_ge)
    moreover from nc cap have "length (take n (drop off vs)) = n" by simp
    ultimately have "n < length (take n (drop off vs) @ replicate (growcap c (n + 1) - n) (zero et))"
      by simp
    with False Some hdr vs nc cap ld show ?thesis
      by (simp add: grow1_def alloc_def)
  qed
qed


text \<open>
  C7, as the code has it. The cursor must be settable, because line 270 stores the new
  slice header through it, and the header must not lie inside the slice's own backing
  array (line 269 would overwrite it). Then \<^verbatim>\<open>SliceNewElem\<close> on a slice of length \<open>N\<close>
  returns nil, the slice in the cursor's old slot has length \<open>N + 1\<close>, and the cursor is
  \<^verbatim>\<open>t.Index(N)\<close>, which holds the zero value of the element type.
\<close>

theorem SliceNewElem_appends_zero:
  assumes top: "top b = Inr (Value (TSlice et) (Addr a) RW)"
    and slot: "load (heap w) a = Inr (VSlice sh)"
    and ok: "slice_ok (heap w) sh"
    and apart: "\<forall>hdr. sh = Some hdr \<longrightarrow> fst a \<noteq> sl_obj hdr"
  shows "\<exists>h3 sh1.
           SliceNewElem (w, b) =
             Inr (None, (w\<lparr>heap := h3\<rparr>,
                         b\<lparr>stack := (stack b)[length (stack b) - 1 :=
                              Value et (Addr (sl_obj sh1, [sl_off sh1 + slice_len sh])) RW]\<rparr>)) \<and>
           load h3 a = Inr (VSlice (Some sh1)) \<and>
           sl_len sh1 = slice_len sh + 1 \<and>
           Value_Len h3 (Value (TSlice et) (Addr a) RW) = Inr (slice_len sh + 1) \<and>
           Value_Index h3 (Value (TSlice et) (Addr a) RW) (slice_len sh) =
             Inr (Value et (Addr (sl_obj sh1, [sl_off sh1 + slice_len sh])) RW) \<and>
           load h3 (sl_obj sh1, [sl_off sh1 + slice_len sh]) = Inr (zero et)"
proof -
  let ?t = "Value (TSlice et) (Addr a) RW"
  let ?h0 = "heap w"
  let ?h1 = "?h0 @ [zero et]"
  let ?e = "Value et (Addr (length ?h0, [])) RW"
  let ?N = "slice_len sh"
  from slot have a_valid: "fst a < length ?h0" by (rule load_valid)
  have ok1: "slice_ok ?h1 sh"
  proof (cases sh)
    case None
    then show ?thesis by (simp add: slice_ok_def)
  next
    case (Some hdr)
    obtain obj off n c where hdr: "hdr = SliceHdr obj off n c" by (cases hdr)
    from ok Some hdr have "obj < length ?h0"
      by (auto simp: slice_ok_def load_def split: if_splits)
    then have "load ?h1 (obj, []) = load ?h0 (obj, [])" by (simp add: load_append)
    with ok Some hdr show ?thesis by (simp add: slice_ok_def)
  qed
  from grow1_effect [OF ok1, of et] obtain h1' sh1 vs k where
    grow: "grow1 ?h1 et sh = Inr (h1', sh1)" and len1: "sl_len sh1 = ?N + 1"
    and ext: "h1' = ?h1 @ k"
    and backing: "load h1' (sl_obj sh1, []) = Inr (VArray vs)" and inb: "sl_off sh1 + ?N < length vs"
    and where1: "length ?h1 \<le> sl_obj sh1 \<or> (\<exists>hdr. sh = Some hdr \<and> sl_obj sh1 = sl_obj hdr)"
    by blast
  let ?el = "(sl_obj sh1, [sl_off sh1 + ?N])"
  from where1 apart a_valid have a_ne: "fst a \<noteq> sl_obj sh1" by auto
  have slot1: "load h1' a = Inr (VSlice sh)"
    using a_valid slot ext by (simp add: load_append)
  have zero1: "load h1' (length ?h0, []) = Inr (zero et)"
  proof -
    have "load h1' (length ?h0, []) = load ?h1 (length ?h0, [])"
      unfolding ext by (rule load_append) simp
    then show ?thesis by (simp add: load_alloc_new)
  qed
  from load_element [OF backing inb] have "load h1' ?el = Inr (vs ! (sl_off sh1 + ?N))" .
  from store_succeeds [OF this, of "zero et"] obtain h2 where
    st2: "store h1' ?el (zero et) = Inr h2" and ld2: "load h2 ?el = Inr (zero et)"
    by blast
  have slot2: "load h2 a = Inr (VSlice sh)"
    using store_other_object [OF st2, of "fst a" "snd a"] a_ne slot1 by simp
  from store_succeeds [OF slot2, of "VSlice (Some sh1)"] obtain h3 where
    st3: "store h2 a (VSlice (Some sh1)) = Inr h3" and ld3: "load h3 a = Inr (VSlice (Some sh1))"
    by blast
  have el3: "load h3 ?el = Inr (zero et)"
    using store_other_object [OF st3, of "sl_obj sh1" "[sl_off sh1 + ?N]"] a_ne ld2 by simp
  have app: "reflect_Append ?h1 ?t ?e = Inr (h2, Value (TSlice et) (Imm (VSlice (Some sh1))) RW)"
    using slot a_valid grow len1 zero1 st2
    by (simp add: reflect_Append_def load_append Value_Set_def assignTo_def)
  have setslot: "Value_Set h2 ?t (Value (TSlice et) (Imm (VSlice (Some sh1))) RW) = Inr h3"
    using st3 by (simp add: Value_Set_def assignTo_def)
  have len3: "Value_Len h3 ?t = Inr (?N + 1)"
    using ld3 len1 by simp
  have idx3: "Value_Index h3 ?t ?N = Inr (Value et (Addr ?el) RW)"
    using ld3 len1 by simp
  from top have ne: "stack b \<noteq> []" by (simp add: top_effect)
  have "move_to_last w b h3 ?t =
      Inr (None, (w\<lparr>heap := h3\<rparr>,
                  b\<lparr>stack := (stack b)[length (stack b) - 1 := Value et (Addr ?el) RW]\<rparr>))"
    using len3 idx3 ne by (simp add: move_to_last_def replace_def)
  with top app setslot have "SliceNewElem (w, b) =
      Inr (None, (w\<lparr>heap := h3\<rparr>,
                  b\<lparr>stack := (stack b)[length (stack b) - 1 := Value et (Addr ?el) RW]\<rparr>))"
    by (simp add: SliceNewElem_def checkKind_def reflect_New_def alloc_def)
  with ld3 len1 len3 idx3 el3 show ?thesis by blast
qed


theorem SliceNewElem_appends_zero_witness:
  "\<exists>h3 sh1.
     SliceNewElem (\<lparr>heap = [VSlice (Some (SliceHdr 1 0 1 1)), VArray [VInt 5]], getterMaps = [], intSize = 64\<rparr>,
        \<lparr>root = ZeroValue, stack = [Value (TSlice (TBasic BInt)) (Addr (0, [])) RW],
         nameTag = [], fieldGettersCache = None\<rparr>) =
       Inr (None, (\<lparr>heap = h3, getterMaps = [], intSize = 64\<rparr>,
        \<lparr>root = ZeroValue, stack = [Value (TBasic BInt) (Addr (sl_obj sh1, [sl_off sh1 + 1])) RW],
         nameTag = [], fieldGettersCache = None\<rparr>)) \<and>
     load h3 (0, []) = Inr (VSlice (Some sh1)) \<and> sl_len sh1 = 2 \<and>
     load h3 (sl_obj sh1, [sl_off sh1 + 1]) = Inr (VInt 0)"
proof -
  have 1: "top \<lparr>root = ZeroValue, stack = [Value (TSlice (TBasic BInt)) (Addr (0, [])) RW],
         nameTag = [], fieldGettersCache = None\<rparr> =
       Inr (Value (TSlice (TBasic BInt)) (Addr (0, [])) RW)"
    by (simp add: top_def)
  have 2: "load (heap \<lparr>heap = [VSlice (Some (SliceHdr 1 0 1 1)), VArray [VInt 5]], getterMaps = [], intSize = 64\<rparr>)
       (0, []) = Inr (VSlice (Some (SliceHdr 1 0 1 1)))"
    by (simp add: load_def)
  have 3: "slice_ok (heap \<lparr>heap = [VSlice (Some (SliceHdr 1 0 1 1)), VArray [VInt 5]], getterMaps = [], intSize = 64\<rparr>)
       (Some (SliceHdr 1 0 1 1))"
    by (simp add: slice_ok_def load_def)
  have 4: "\<forall>hdr. Some (SliceHdr 1 0 1 1) = Some hdr \<longrightarrow> fst (0 :: nat, [] :: nat list) \<noteq> sl_obj hdr"
    by auto
  from SliceNewElem_appends_zero [OF 1 2 3 4] show ?thesis
    by (simp add: numeral_2_eq_2 del: Value_Len.simps Value_Index.simps) blast
qed

text \<open>
  The claim fails on a cursor that is not settable, and a Builder reaches one by digging
  through an interface: \<^verbatim>\<open>Elem\<close> of an interface is a copy, so after
  \<^verbatim>\<open>DigField("I")\<close> and \<^verbatim>\<open>DigField("F")\<close> on a \<^verbatim>\<open>struct{I interface{}}\<close> whose \<open>I\<close>
  holds a \<^verbatim>\<open>struct{F []int}\<close> the cursor is a slice of length 0 that is not addressable,
  and \<^verbatim>\<open>t.Set(newSlice)\<close> at line 270 panics.
\<close>

theorem SliceNewElem_unsettable_counterexample:
  "run [OpDigField ''I'', OpDigField ''F'']
      (\<lparr>heap = [VStruct [VIface (Some (TStruct ''Inner'' [StructField ''F'' [] False [] (TSlice (TBasic BInt))], VStruct [VSlice None]))]],
        getterMaps = [], intSize = 64\<rparr>,
       \<lparr>root = Value (TStruct ''S'' [StructField ''I'' [] False [] TInterface]) (Addr (0, [])) RW,
        stack = [Value (TStruct ''S'' [StructField ''I'' [] False [] TInterface]) (Addr (0, [])) RW],
        nameTag = [], fieldGettersCache = None\<rparr>) =
     Some (Inr
      (\<lparr>heap = [VStruct [VIface (Some (TStruct ''Inner'' [StructField ''F'' [] False [] (TSlice (TBasic BInt))], VStruct [VSlice None]))]],
        getterMaps = [[(''I'', makeFieldGetterByIndex 0)], [(''F'', makeFieldGetterByIndex 0)]], intSize = 64\<rparr>,
       \<lparr>root = Value (TStruct ''S'' [StructField ''I'' [] False [] TInterface]) (Addr (0, [])) RW,
        stack = [Value (TSlice (TBasic BInt)) (Imm (VSlice None)) RW],
        nameTag = [],
        fieldGettersCache = Some [(TStruct ''S'' [StructField ''I'' [] False [] TInterface], 0), (TStruct ''Inner'' [StructField ''F'' [] False [] (TSlice (TBasic BInt))], 1)]\<rparr>)) \<and>
   Value_Kind (Value (TSlice (TBasic BInt)) (Imm (VSlice None)) RW) = Slice \<and>
   Value_Len [VStruct [VIface (Some (TStruct ''Inner'' [StructField ''F'' [] False [] (TSlice (TBasic BInt))], VStruct [VSlice None]))]]
     (Value (TSlice (TBasic BInt)) (Imm (VSlice None)) RW) = Inr 0 \<and>
   SliceNewElem
      (\<lparr>heap = [VStruct [VIface (Some (TStruct ''Inner'' [StructField ''F'' [] False [] (TSlice (TBasic BInt))], VStruct [VSlice None]))]],
        getterMaps = [[(''I'', makeFieldGetterByIndex 0)], [(''F'', makeFieldGetterByIndex 0)]], intSize = 64\<rparr>,
       \<lparr>root = Value (TStruct ''S'' [StructField ''I'' [] False [] TInterface]) (Addr (0, [])) RW,
        stack = [Value (TSlice (TBasic BInt)) (Imm (VSlice None)) RW],
        nameTag = [],
        fieldGettersCache = Some [(TStruct ''S'' [StructField ''I'' [] False [] TInterface], 0), (TStruct ''Inner'' [StructField ''F'' [] False [] (TSlice (TBasic BInt))], 1)]\<rparr>) = Inl PanicNotAssignable"
  by code_simp

subsection \<open>SliceLastOrCreate\<close>

text \<open>
  What \<^verbatim>\<open>SliceLastOrCreate\<close> does on a cursor that holds a value. On a slice it is
  \<^verbatim>\<open>SliceNewElem\<close> when the length is 0: the same result, state and error, whatever
  they are. When the length is positive it is \<^verbatim>\<open>Last\<close>, with the nil error: the cursor
  moves to the last element and the memory, so the length, is unchanged. On a value of
  any other kind it returns \<^verbatim>\<open>IncorrectKind\<close> and changes nothing.
\<close>

lemma SliceLastOrCreate_cases:
  assumes "top b = Inr t"
  shows "(Value_Kind t = Slice \<longrightarrow> Value_Len (heap w) t = Inr 0 \<longrightarrow>
            SliceLastOrCreate (w, b) = SliceNewElem (w, b)) \<and>
         (Value_Kind t = Slice \<longrightarrow> Value_Len (heap w) t = Inr n \<longrightarrow> 0 < n \<longrightarrow>
            SliceLastOrCreate (w, b) = no_error (Last (w, b)) \<and>
            (\<exists>x. Value_Index (heap w) t (n - 1) = Inr x \<and>
                 Last (w, b) = Inr (w, b\<lparr>stack := (stack b)[length (stack b) - 1 := x]\<rparr>))) \<and>
         (Value_IsValid t \<longrightarrow> Value_Kind t \<noteq> Slice \<longrightarrow>
            SliceLastOrCreate (w, b) =
              Inr (Some (IncorrectKindError (Value_Kind t) Slice), (w, b)))"
proof (intro conjI impI)
  assume "Value_Kind t = Slice" and "Value_Len (heap w) t = Inr 0"
  with assms show "SliceLastOrCreate (w, b) = SliceNewElem (w, b)"
    by (cases t) (auto simp: SliceLastOrCreate_def checkKind_def)
next
  assume k: "Value_Kind t = Slice" and l: "Value_Len (heap w) t = Inr n" and n: "0 < n"
  with assms show "SliceLastOrCreate (w, b) = no_error (Last (w, b))"
    by (cases t) (auto simp: SliceLastOrCreate_def checkKind_def no_error_def)
  from k obtain et pl ro where t: "t = Value (TSlice et) pl ro"
    by (cases t) (auto simp: Type_Kind_Slice)
  from l t obtain s0 where "read_value (heap w) t = Inr (VSlice s0)" and "n = slice_len s0"
    by (auto simp only: Value_Len_slice)
  with n obtain s where rd: "read_value (heap w) t = Inr (VSlice (Some s))" and s: "sl_len s = n"
    by (cases s0) auto
  from rd s t n have "\<exists>x. Value_Index (heap w) t (n - 1) = Inr x"
    by auto
  then obtain x where x: "Value_Index (heap w) t (n - 1) = Inr x" ..
  from assms have "stack b \<noteq> []" by (simp add: top_effect)
  with assms k l n x have "Last (w, b) = Inr (w, b\<lparr>stack := (stack b)[length (stack b) - 1 := x]\<rparr>)"
    by (simp add: Last_def Cursor_def replace_def)
  with x show "\<exists>x. Value_Index (heap w) t (n - 1) = Inr x \<and>
      Last (w, b) = Inr (w, b\<lparr>stack := (stack b)[length (stack b) - 1 := x]\<rparr>)"
    by blast
next
  assume "Value_IsValid t" and "Value_Kind t \<noteq> Slice"
  with assms show "SliceLastOrCreate (w, b) =
      Inr (Some (IncorrectKindError (Value_Kind t) Slice), (w, b))"
    by (cases t) (auto simp: SliceLastOrCreate_def checkKind_def)
qed

lemma SliceLastOrCreate_cases_example:
  "SliceLastOrCreate (\<lparr>heap = [VSlice None], getterMaps = [], intSize = 64\<rparr>,
        \<lparr>root = ZeroValue, stack = [Value (TSlice (TBasic BInt)) (Addr (0, [])) RW],
         nameTag = [], fieldGettersCache = None\<rparr>) =
   SliceNewElem (\<lparr>heap = [VSlice None], getterMaps = [], intSize = 64\<rparr>,
        \<lparr>root = ZeroValue, stack = [Value (TSlice (TBasic BInt)) (Addr (0, [])) RW],
         nameTag = [], fieldGettersCache = None\<rparr>) \<and>
   SliceLastOrCreate (\<lparr>heap = [VSlice (Some (SliceHdr 1 0 2 2)), VArray [VInt 5, VInt 6]], getterMaps = [], intSize = 64\<rparr>,
        \<lparr>root = ZeroValue, stack = [Value (TSlice (TBasic BInt)) (Addr (0, [])) RW],
         nameTag = [], fieldGettersCache = None\<rparr>) =
   no_error (Last (\<lparr>heap = [VSlice (Some (SliceHdr 1 0 2 2)), VArray [VInt 5, VInt 6]], getterMaps = [], intSize = 64\<rparr>,
        \<lparr>root = ZeroValue, stack = [Value (TSlice (TBasic BInt)) (Addr (0, [])) RW],
         nameTag = [], fieldGettersCache = None\<rparr>)) \<and>
   Last (\<lparr>heap = [VSlice (Some (SliceHdr 1 0 2 2)), VArray [VInt 5, VInt 6]], getterMaps = [], intSize = 64\<rparr>,
        \<lparr>root = ZeroValue, stack = [Value (TSlice (TBasic BInt)) (Addr (0, [])) RW],
         nameTag = [], fieldGettersCache = None\<rparr>) =
     Inr (\<lparr>heap = [VSlice (Some (SliceHdr 1 0 2 2)), VArray [VInt 5, VInt 6]], getterMaps = [], intSize = 64\<rparr>,
        \<lparr>root = ZeroValue, stack = [Value (TBasic BInt) (Addr (1, [1])) RW],
         nameTag = [], fieldGettersCache = None\<rparr>) \<and>
   SliceLastOrCreate (\<lparr>heap = [VBool False], getterMaps = [], intSize = 64\<rparr>,
        \<lparr>root = ZeroValue, stack = [Value (TBasic BBool) (Addr (0, [])) RW],
         nameTag = [], fieldGettersCache = None\<rparr>) =
     Inr (Some (IncorrectKindError Bool Slice), (\<lparr>heap = [VBool False], getterMaps = [], intSize = 64\<rparr>,
        \<lparr>root = ZeroValue, stack = [Value (TBasic BBool) (Addr (0, [])) RW],
         nameTag = [], fieldGettersCache = None\<rparr>))"
  using SliceLastOrCreate_cases [of "\<lparr>root = ZeroValue, stack = [Value (TSlice (TBasic BInt)) (Addr (0, [])) RW],
         nameTag = [], fieldGettersCache = None\<rparr>" "Value (TSlice (TBasic BInt)) (Addr (0, [])) RW"
         "\<lparr>heap = [VSlice None], getterMaps = [], intSize = 64\<rparr>" 0]
    SliceLastOrCreate_cases [of "\<lparr>root = ZeroValue, stack = [Value (TSlice (TBasic BInt)) (Addr (0, [])) RW],
         nameTag = [], fieldGettersCache = None\<rparr>" "Value (TSlice (TBasic BInt)) (Addr (0, [])) RW"
         "\<lparr>heap = [VSlice (Some (SliceHdr 1 0 2 2)), VArray [VInt 5, VInt 6]], getterMaps = [], intSize = 64\<rparr>" 2]
    SliceLastOrCreate_cases [of "\<lparr>root = ZeroValue, stack = [Value (TBasic BBool) (Addr (0, [])) RW],
         nameTag = [], fieldGettersCache = None\<rparr>" "Value (TBasic BBool) (Addr (0, [])) RW"
         "\<lparr>heap = [VBool False], getterMaps = [], intSize = 64\<rparr>" 0]
  by (simp add: top_def load_def)

text \<open>
  C6. The three cases hold on every cursor that holds a value. But \<^verbatim>\<open>NewBuilder\<close>,
  given a nil pointer, returns without error a Builder whose cursor is the zero Value,
  against its documentation and the comment of line 24 (see C4). That cursor is not a
  slice, its kind is \<^verbatim>\<open>Invalid\<close>, and on it \<^verbatim>\<open>SliceLastOrCreate\<close> panics in
  \<^verbatim>\<open>t.Type()\<close> at line 247 instead of returning \<^verbatim>\<open>IncorrectKind\<close>.
\<close>

theorem SliceLastOrCreate_zero_cursor_panics:
  "NewBuilder [] ''toml'' (Some (TPtr (TSlice (TBasic BInt)), VPtr None)) =
     Inr (Inr \<lparr>root = ZeroValue, stack = [ZeroValue], nameTag = ''toml'',
               fieldGettersCache = None\<rparr>) \<and>
   top \<lparr>root = ZeroValue, stack = [ZeroValue], nameTag = ''toml'',
        fieldGettersCache = None\<rparr> = Inr ZeroValue \<and>
   Value_Kind ZeroValue = Invalid \<and>
   SliceLastOrCreate
     (\<lparr>heap = [], getterMaps = [], intSize = 64\<rparr>,
      \<lparr>root = ZeroValue, stack = [ZeroValue], nameTag = ''toml'',
       fieldGettersCache = None\<rparr>) = Inl PanicZeroValue"
  by code_simp

subsection \<open>The cache of field getters\<close>

lemma cache_lookup_cache_store:
  "cache_lookup (snd (cache_store st s m)) k = (if k = s then Some m else cache_lookup (snd st) k)"
  by (cases st) (simp add: cache_store_def cache_lookup_def Let_def update_conv' split: option.splits)

lemma generate_cache:
  shows "getOrGenerateFieldGettersRecursive st m idx s = Inr st1 \<Longrightarrow>
           cache_lookup (snd st1) s = Some m \<and>
           (\<forall>k. cache_lookup (snd st1) k = Some m \<or> cache_lookup (snd st1) k = cache_lookup (snd st) k)"
    and "fields_loop st m idx fs i = Inr st2 \<Longrightarrow>
           (\<forall>f\<in>set fs. PkgPath f = [] \<longrightarrow> Anonymous f \<longrightarrow>
              cache_lookup (snd st2) (Type f) = Some m \<and> Type_Kind (Type f) = Struct) \<and>
           (\<forall>k. cache_lookup (snd st2) k = Some m \<or> cache_lookup (snd st2) k = cache_lookup (snd st) k)"
proof (induction st m idx s and st m idx fs i arbitrary: st1 and st2
    rule: getOrGenerateFieldGettersRecursive_fields_loop.induct)
  case (1 st m idx n fs)
  from "1.prems" obtain sta where loop: "fields_loop st m idx fs 0 = Inr sta"
    and st1: "st1 = cache_store sta (TStruct n fs) m"
    by (auto simp: bind_res_eq_Inr)
  from "1.IH" [OF loop] st1 show ?case
    by (auto simp: cache_lookup_cache_store)
next
  case (8 st m idx fName fPkgPath fAnonymous fTag fType fs i)
  show ?case
  proof (cases "fPkgPath \<noteq> []")
    case True
    with 8 show ?thesis by simp
  next
    case exported: False
    show ?thesis
    proof (cases fAnonymous)
      case True
      with exported "8.prems" obtain sta where
        rec: "getOrGenerateFieldGettersRecursive st m (copyAndAppend idx i) fType = Inr sta"
        and loop: "fields_loop sta m idx fs (i + 1) = Inr st2"
        by (auto simp: bind_res_eq_Inr)
      note ih1 = "8.IH"(2) [OF exported True rec]
      note ih2 = "8.IH"(3) [OF exported True loop]
      from ih1 ih2 have "cache_lookup (snd st2) fType = Some m" by metis
      moreover from rec have "Type_Kind fType = Struct" by (cases fType) simp_all
      moreover from ih1 ih2
      have "\<forall>k. cache_lookup (snd st2) k = Some m \<or> cache_lookup (snd st2) k = cache_lookup (snd st) k"
        by metis
      ultimately show ?thesis using ih2 by simp
    next
      case False
      let ?fieldName = "case map_of fTag (nameTag (snd st)) of Some n \<Rightarrow> n | None \<Rightarrow> fName"
      let ?g = "if length idx = 0 then makeFieldGetterByIndex i
                else makeFieldGetterByIndexes (copyAndAppend idx i)"
      from exported False "8.prems" obtain sta where
        asg: "map_assign st m ?fieldName ?g = Inr sta"
        and loop: "fields_loop sta m idx fs (i + 1) = Inr st2"
        by (auto simp: bind_res_eq_Inr Let_def split: if_splits)
      from asg have same: "snd sta = snd st" by (simp add: map_assign_builder)
      have "fields_loop sta m idx fs (i + 1) = Inr st2 \<Longrightarrow>
        (\<forall>f\<in>set fs. PkgPath f = [] \<longrightarrow> Anonymous f \<longrightarrow>
           cache_lookup (snd st2) (Type f) = Some m \<and> Type_Kind (Type f) = Struct) \<and>
        (\<forall>k. cache_lookup (snd st2) k = Some m \<or> cache_lookup (snd st2) k = cache_lookup (snd sta) k)"
        using "8.IH"(4) [OF exported False refl, of sta st2] asg
        by (auto simp: Let_def split: if_splits)
      with loop same False show ?thesis by simp
    qed
  qed
qed simp_all


lemma type_at_snoc:
  "type_at S idx = Some (TStruct n fs) \<Longrightarrow> i < length fs \<Longrightarrow>
     type_at S (idx @ [i]) = Some (Type (fs ! i))"
  by (induction S idx rule: type_at.induct) (auto split: if_splits)

lemma field_at_snoc:
  "type_at S idx = Some (TStruct n fs) \<Longrightarrow> i < length fs \<Longrightarrow> field_at S (idx @ [i]) = Some (fs ! i)"
  by (simp add: field_at_def)

lemma drop_eq_Cons:
  "drop i xs = y # ys \<Longrightarrow> i < length xs \<and> xs ! i = y \<and> drop (Suc i) xs = ys"
  by (metis Cons_nth_drop_Suc drop_all list.distinct(1) list.inject not_le_imp_less)

lemma list_all_update:
  "P (k, v) \<Longrightarrow> list_all P al \<Longrightarrow> list_all P (AList.update k v al)"
  by (induction al) auto

lemma map_assign_relative:
  assumes "map_assign st m k g = Inr st1"
    and "getter_relative_to tag S (k, g)"
    and "getters_relative_to tag S (getterMaps (fst st) ! m)"
  shows "m < length (getterMaps (fst st)) \<and>
         getters_relative_to tag S (getterMaps (fst st1) ! m) \<and>
         length (getterMaps (fst st1)) = length (getterMaps (fst st)) \<and> snd st1 = snd st"
  using assms
  by (cases st) (auto simp: map_assign_def getters_relative_to_def list_all_update split: if_splits)

lemma generate_relative:
  shows "getOrGenerateFieldGettersRecursive st m idx s = Inr st1 \<Longrightarrow>
           type_at S idx = Some s \<Longrightarrow>
           getters_relative_to (nameTag (snd st)) S (getterMaps (fst st) ! m) \<Longrightarrow>
           getters_relative_to (nameTag (snd st)) S (getterMaps (fst st1) ! m) \<and>
           length (getterMaps (fst st1)) = length (getterMaps (fst st))"
    and "fields_loop st m idx fs i = Inr st2 \<Longrightarrow>
           type_at S idx = Some (TStruct n fs0) \<Longrightarrow> drop i fs0 = fs \<Longrightarrow>
           getters_relative_to (nameTag (snd st)) S (getterMaps (fst st) ! m) \<Longrightarrow>
           getters_relative_to (nameTag (snd st)) S (getterMaps (fst st2) ! m) \<and>
           length (getterMaps (fst st2)) = length (getterMaps (fst st))"
proof (induction st m idx s and st m idx fs i arbitrary: st1 and st2 n fs0
    rule: getOrGenerateFieldGettersRecursive_fields_loop.induct)
  case (1 st m idx n fs)
  from "1.prems"(1) obtain sta where loop: "fields_loop st m idx fs 0 = Inr sta"
    and st1: "st1 = cache_store sta (TStruct n fs) m"
    by (auto simp: bind_res_eq_Inr)
  from "1.IH" [OF loop "1.prems"(2) _ "1.prems"(3)] st1 show ?case
    by (simp add: cache_store_builder)
next
  case (8 st m idx fName fPkgPath fAnonymous fTag fType fs i)
  let ?f = "StructField fName fPkgPath fAnonymous fTag fType"
  from drop_eq_Cons [OF "8.prems"(3)]
  have i: "i < length fs0" and f: "fs0 ! i = ?f" and rest: "drop (i + 1) fs0 = fs"
    by simp_all
  show ?case
  proof (cases "fPkgPath \<noteq> []")
    case True
    with "8.prems" "8.IH"(1) [OF True _ "8.prems"(2) rest "8.prems"(4)] show ?thesis by simp
  next
    case exported: False
    show ?thesis
    proof (cases fAnonymous)
      case True
      with exported "8.prems"(1) obtain sta where
        rec: "getOrGenerateFieldGettersRecursive st m (copyAndAppend idx i) fType = Inr sta"
        and loop: "fields_loop sta m idx fs (i + 1) = Inr st2"
        by (auto simp: bind_res_eq_Inr)
      have at: "type_at S (copyAndAppend idx i) = Some fType"
        using type_at_snoc [OF "8.prems"(2) i] f by (simp add: copyAndAppend_snoc)
      from generate_same_cursor(1) [OF rec] have tag: "nameTag (snd sta) = nameTag (snd st)"
        by (simp add: same_cursor_def)
      note ih1 = "8.IH"(2) [OF exported True rec at "8.prems"(4)]
      from ih1 tag have "getters_relative_to (nameTag (snd sta)) S (getterMaps (fst sta) ! m)"
        by simp
      from "8.IH"(3) [OF exported True loop "8.prems"(2) rest this] ih1 tag
      show ?thesis by simp
    next
      case False
      let ?fieldName = "case map_of fTag (nameTag (snd st)) of Some n \<Rightarrow> n | None \<Rightarrow> fName"
      let ?g = "if length idx = 0 then makeFieldGetterByIndex i
                else makeFieldGetterByIndexes (copyAndAppend idx i)"
      from exported False "8.prems"(1) obtain sta where
        asg: "map_assign st m ?fieldName ?g = Inr sta"
        and loop: "fields_loop sta m idx fs (i + 1) = Inr st2"
        by (auto simp: bind_res_eq_Inr Let_def split: if_splits)
      have path: "getter_path ?g = idx @ [i]"
        by (simp add: copyAndAppend_snoc)
      have "field_at S (idx @ [i]) = Some ?f"
        using field_at_snoc [OF "8.prems"(2) i] f by simp
      with path exported False
      have "getter_relative_to (nameTag (snd st)) S (?fieldName, ?g)"
        by (simp add: getter_relative_to_def address_key_def split: option.splits)
      from map_assign_relative [OF asg this "8.prems"(4)]
      have ok: "getters_relative_to (nameTag (snd st)) S (getterMaps (fst sta) ! m)"
        and len: "length (getterMaps (fst sta)) = length (getterMaps (fst st))"
        and same: "snd sta = snd st"
        by simp_all
      have "fields_loop sta m idx fs (i + 1) = Inr st2 \<Longrightarrow>
          getters_relative_to (nameTag (snd sta)) S (getterMaps (fst sta) ! m) \<Longrightarrow>
          getters_relative_to (nameTag (snd sta)) S (getterMaps (fst st2) ! m) \<and>
          length (getterMaps (fst st2)) = length (getterMaps (fst sta))"
        using "8.IH"(4) [OF exported False refl, of sta st2 n fs0] asg "8.prems"(2) rest
        by (auto simp: Let_def split: if_splits)
      with loop ok len same show ?thesis by simp
    qed
  qed
qed simp_all


text \<open>
  C9, as the code has it: for an embedded field that is exported. Suppose the getters
  of a struct type \<open>S\<close> are built (\<open>S\<close> is not in the cache) and \<open>S\<close> has an exported
  anonymous field \<open>f\<close>. The recursive call for the type of \<open>f\<close>
  runs line 67 with the map it was handed, which is the map of \<open>S\<close>. Afterwards the cache
  has an entry for the type of \<open>f\<close>, and it is the very map object \<open>m\<close> of \<open>S\<close>;
  every getter of that map follows an index path that starts at \<open>S\<close>; and
  \<^verbatim>\<open>getOrGenerateFieldGetters\<close> on the type of \<open>f\<close> finds that entry and returns \<open>m\<close>
  without building anything.
\<close>

theorem embedded_type_shares_map:
  assumes build: "getOrGenerateFieldGetters st (TStruct n fs) = Inr (m, st1)"
    and miss: "cache_lookup (snd st) (TStruct n fs) = None"
    and f: "f \<in> set fs" "PkgPath f = []" "Anonymous f"
  shows "cache_lookup (snd st1) (TStruct n fs) = Some m \<and>
         cache_lookup (snd st1) (Type f) = Some m \<and>
         m = length (getterMaps (fst st)) \<and>
         getters_relative_to (nameTag (snd st)) (TStruct n fs) (getterMaps (fst st1) ! m) \<and>
         getOrGenerateFieldGetters st1 (Type f) = Inr (m, st1)"
proof -
  let ?S = "TStruct n fs"
  obtain w b where st: "st = (w, b)" by (cases st)
  let ?st0 = "(w\<lparr>getterMaps := getterMaps w @ [[]]\<rparr>, b)"
  from build miss st obtain w1 b1 c where m: "m = length (getterMaps w)"
    and rec: "getOrGenerateFieldGettersRecursive ?st0 m [] ?S = Inr (w1, b1)"
    and c: "fieldGettersCache b1 = Some c"
    and st1: "st1 = (w1, b1\<lparr>fieldGettersCache := Some (AList.update ?S m c)\<rparr>)"
    by (auto simp: getOrGenerateFieldGetters_def Let_def bind_res_eq_Inr split: option.splits)
  from rec obtain sta where loop: "fields_loop ?st0 m [] fs 0 = Inr sta"
    and b1: "(w1, b1) = cache_store sta ?S m"
    by (auto simp: bind_res_eq_Inr)
  have lookup1: "cache_lookup (snd st1) k = (if k = ?S then Some m else cache_lookup b1 k)" for k
    using st1 c by (simp add: cache_lookup_def update_conv')
  from generate_cache(2) [OF loop] f
  have "cache_lookup (snd sta) (Type f) = Some m" and kind: "Type_Kind (Type f) = Struct"
    by auto
  then have "cache_lookup b1 (Type f) = Some m"
    using cache_lookup_cache_store [of sta ?S m "Type f"] b1 [symmetric] by simp
  then have hit: "cache_lookup (snd st1) (Type f) = Some m"
    by (simp add: lookup1)
  have "getters_relative_to (nameTag (snd ?st0)) ?S (getterMaps (fst ?st0) ! m)"
    using m by (simp add: getters_relative_to_def)
  from generate_relative(1) [OF rec _ this]
  have "getters_relative_to (nameTag b) ?S (getterMaps w1 ! m)" by simp
  with st st1 have rel: "getters_relative_to (nameTag (snd st)) ?S (getterMaps (fst st1) ! m)"
    by simp
  from hit kind have "getOrGenerateFieldGetters st1 (Type f) = Inr (m, st1)"
    by (simp add: getOrGenerateFieldGetters_def)
  with hit rel m st show ?thesis by (simp add: lookup1)
qed

theorem embedded_type_shares_map_witness:
  "cache_lookup
     \<lparr>root = ZeroValue, stack = [], nameTag = ''toml'',
      fieldGettersCache = Some
        [(TStruct ''E'' [StructField ''ID'' [] False [] (TBasic BInt)], 0),
         (TStruct ''S'' [StructField ''B'' [] False [] (TBasic BBool),
            StructField ''E'' [] True [] (TStruct ''E'' [StructField ''ID'' [] False [] (TBasic BInt)])], 0)]\<rparr>
     (TStruct ''E'' [StructField ''ID'' [] False [] (TBasic BInt)]) = Some 0 \<and>
   getOrGenerateFieldGetters
     (\<lparr>heap = [], getterMaps = [[(''B'', makeFieldGetterByIndex 0), (''ID'', makeFieldGetterByIndexes [1, 0])]], intSize = 64\<rparr>,
      \<lparr>root = ZeroValue, stack = [], nameTag = ''toml'',
       fieldGettersCache = Some
        [(TStruct ''E'' [StructField ''ID'' [] False [] (TBasic BInt)], 0),
         (TStruct ''S'' [StructField ''B'' [] False [] (TBasic BBool),
            StructField ''E'' [] True [] (TStruct ''E'' [StructField ''ID'' [] False [] (TBasic BInt)])], 0)]\<rparr>)
     (TStruct ''E'' [StructField ''ID'' [] False [] (TBasic BInt)]) =
   Inr (0,
     (\<lparr>heap = [], getterMaps = [[(''B'', makeFieldGetterByIndex 0), (''ID'', makeFieldGetterByIndexes [1, 0])]], intSize = 64\<rparr>,
      \<lparr>root = ZeroValue, stack = [], nameTag = ''toml'',
       fieldGettersCache = Some
        [(TStruct ''E'' [StructField ''ID'' [] False [] (TBasic BInt)], 0),
         (TStruct ''S'' [StructField ''B'' [] False [] (TBasic BBool),
            StructField ''E'' [] True [] (TStruct ''E'' [StructField ''ID'' [] False [] (TBasic BInt)])], 0)]\<rparr>))"
proof -
  have build: "getOrGenerateFieldGetters
     (\<lparr>heap = [], getterMaps = [], intSize = 64\<rparr>,
      \<lparr>root = ZeroValue, stack = [], nameTag = ''toml'', fieldGettersCache = None\<rparr>)
     (TStruct ''S'' [StructField ''B'' [] False [] (TBasic BBool),
            StructField ''E'' [] True [] (TStruct ''E'' [StructField ''ID'' [] False [] (TBasic BInt)])]) =
   Inr (0,
     (\<lparr>heap = [], getterMaps = [[(''B'', makeFieldGetterByIndex 0), (''ID'', makeFieldGetterByIndexes [1, 0])]], intSize = 64\<rparr>,
      \<lparr>root = ZeroValue, stack = [], nameTag = ''toml'',
       fieldGettersCache = Some
        [(TStruct ''E'' [StructField ''ID'' [] False [] (TBasic BInt)], 0),
         (TStruct ''S'' [StructField ''B'' [] False [] (TBasic BBool),
            StructField ''E'' [] True [] (TStruct ''E'' [StructField ''ID'' [] False [] (TBasic BInt)])], 0)]\<rparr>))"
    by code_simp
  have miss: "cache_lookup (snd (\<lparr>heap = [], getterMaps = [], intSize = 64\<rparr>,
      \<lparr>root = ZeroValue, stack = [], nameTag = ''toml'', fieldGettersCache = None\<rparr>))
     (TStruct ''S'' [StructField ''B'' [] False [] (TBasic BBool),
            StructField ''E'' [] True [] (TStruct ''E'' [StructField ''ID'' [] False [] (TBasic BInt)])]) = None"
    by (simp add: cache_lookup_def)
  have f: "StructField ''E'' [] True [] (TStruct ''E'' [StructField ''ID'' [] False [] (TBasic BInt)])
      \<in> set [StructField ''B'' [] False [] (TBasic BBool),
            StructField ''E'' [] True [] (TStruct ''E'' [StructField ''ID'' [] False [] (TBasic BInt)])]"
    "PkgPath (StructField ''E'' [] True [] (TStruct ''E'' [StructField ''ID'' [] False [] (TBasic BInt)])) = []"
    "Anonymous (StructField ''E'' [] True [] (TStruct ''E'' [StructField ''ID'' [] False [] (TBasic BInt)]))"
    by simp_all
  from embedded_type_shares_map [OF build miss f] show ?thesis by simp
qed

text \<open>
  The claim fails for an embedded field that is not exported: line 43 skips it before
  line 47 is reached, no recursive call is made, and the cache gets no entry for its
  type.
\<close>

theorem embedded_unexported_counterexample:
  "Anonymous (StructField ''e'' ''pkg'' True [] (TStruct ''e'' [StructField ''ID'' [] False [] (TBasic BInt)])) \<and>
   getOrGenerateFieldGetters
     (\<lparr>heap = [], getterMaps = [], intSize = 64\<rparr>,
      \<lparr>root = ZeroValue, stack = [], nameTag = ''toml'', fieldGettersCache = None\<rparr>)
     (TStruct ''S'' [StructField ''e'' ''pkg'' True []
        (TStruct ''e'' [StructField ''ID'' [] False [] (TBasic BInt)])]) =
   Inr (0,
     (\<lparr>heap = [], getterMaps = [[]], intSize = 64\<rparr>,
      \<lparr>root = ZeroValue, stack = [], nameTag = ''toml'',
       fieldGettersCache = Some
        [(TStruct ''S'' [StructField ''e'' ''pkg'' True []
            (TStruct ''e'' [StructField ''ID'' [] False [] (TBasic BInt)])], 0)]\<rparr>)) \<and>
   cache_lookup
     \<lparr>root = ZeroValue, stack = [], nameTag = ''toml'',
       fieldGettersCache = Some
        [(TStruct ''S'' [StructField ''e'' ''pkg'' True []
            (TStruct ''e'' [StructField ''ID'' [] False [] (TBasic BInt)])], 0)]\<rparr>
     (TStruct ''e'' [StructField ''ID'' [] False [] (TBasic BInt)]) = None"
  by code_simp

end
